theory Spec2Isabelle
  imports Main "HOL-Library.Word"
begin

unbundle bit_operations_syntax

section \<open>Strings and the C runtime\<close>

text \<open>
  A \<^verbatim>\<open>std::wstring\<close> is modelled as a HOL string; one \<^typ>\<open>char\<close> stands for one
  \<^verbatim>\<open>wchar_t\<close> code unit. The backslash cannot be written inside a HOL string literal,
  so it has a name.
\<close>

type_synonym wstring = string

abbreviation bslash :: wstring where
  "bslash \<equiv> [CHR 0x5C]"

text \<open>\<^verbatim>\<open>s.c_str()\<close> read as a C string: the code units before the first NUL.\<close>

definition c_str :: "wstring \<Rightarrow> wstring" where
  "c_str s = takeWhile (\<lambda>c. c \<noteq> CHR 0x00) s"

text \<open>
  \<^verbatim>\<open>towlower\<close> and \<^verbatim>\<open>_wcsicmp\<close> of the C runtime in the "C" locale: only
  \<^verbatim>\<open>A\<close>..\<^verbatim>\<open>Z\<close> are folded, and the strings are compared code unit by code unit.
\<close>

definition towlower :: "char \<Rightarrow> char" where
  "towlower c =
     (if (65::nat) \<le> of_char c \<and> of_char c \<le> (90::nat)
      then char_of (of_char c + (32::nat)) else c)"

fun wcsicmp :: "wstring \<Rightarrow> wstring \<Rightarrow> int" where
  "wcsicmp [] [] = 0"
| "wcsicmp [] (b # bs) = - 1"
| "wcsicmp (a # as) [] = 1"
| "wcsicmp (a # as) (b # bs) =
     (let x = (of_char (towlower a) :: nat); y = (of_char (towlower b) :: nat)
      in if x = y then wcsicmp as bs else int x - int y)"

section \<open>The platform\<close>

text \<open>
  What the extension calls and does not define itself: the Win32 file and path calls
  and the member functions of \<^verbatim>\<open>std::filesystem::path\<close>. A path object is
  represented by its native string. Every theorem below holds for every platform.
\<close>

record platform =
  GetFileAttributesW :: "wstring \<Rightarrow> 32 word"
  GetModuleFileNameW :: wstring
  PathRemoveFileSpecW :: "wstring \<Rightarrow> wstring"
  PathAppendW :: "wstring \<Rightarrow> wstring \<Rightarrow> wstring"
  filename :: "wstring \<Rightarrow> wstring"
  stem :: "wstring \<Rightarrow> wstring"
  extension :: "wstring \<Rightarrow> wstring"
  parent_path :: "wstring \<Rightarrow> wstring"
  path_eq :: "wstring \<Rightarrow> wstring \<Rightarrow> bool"

definition INVALID_FILE_ATTRIBUTES :: "32 word" where
  "INVALID_FILE_ATTRIBUTES = 0xFFFFFFFF"

definition FILE_ATTRIBUTE_DIRECTORY :: "32 word" where
  "FILE_ATTRIBUTE_DIRECTORY = 0x10"

section \<open>Helpers\<close>

definition GetModuleDir :: "platform \<Rightarrow> wstring" where
  "GetModuleDir P = PathRemoveFileSpecW P (GetModuleFileNameW P)"

definition Combine :: "platform \<Rightarrow> wstring \<Rightarrow> wstring \<Rightarrow> wstring" where
  "Combine P a b = PathAppendW P a b"

definition FileExists :: "platform \<Rightarrow> wstring \<Rightarrow> bool" where
  "FileExists P p =
     (let a = GetFileAttributesW P (c_str p)
      in a \<noteq> INVALID_FILE_ATTRIBUTES \<and> \<not> (a AND FILE_ATTRIBUTE_DIRECTORY \<noteq> 0))"

definition Find7zTool :: "platform \<Rightarrow> wstring \<Rightarrow> wstring" where
  "Find7zTool P name =
     (let here = GetModuleDir P;
          p = Combine P here name
      in if FileExists P p then p else name)"

definition IsDirectoryPath :: "platform \<Rightarrow> wstring \<Rightarrow> bool" where
  "IsDirectoryPath P p =
     (let a = GetFileAttributesW P (c_str p)
      in a \<noteq> INVALID_FILE_ATTRIBUTES \<and> a AND FILE_ATTRIBUTE_DIRECTORY \<noteq> 0)"

definition exts :: "wstring list" where
  "exts = [''.7z'', ''.zip'', ''.rar'', ''.tar'', ''.gz'', ''.xz'', ''.bz2'', ''.cab'',
           ''.wim'', ''.lzma'', ''.zst'', ''.arj'']"

fun IsArchiveExt_loop :: "wstring \<Rightarrow> wstring list \<Rightarrow> bool" where
  "IsArchiveExt_loop ext [] = False"
| "IsArchiveExt_loop ext (e # es) =
     (if wcsicmp (c_str ext) e = 0 then True else IsArchiveExt_loop ext es)"

definition IsArchiveExt :: "wstring \<Rightarrow> bool" where
  "IsArchiveExt ext = IsArchiveExt_loop ext exts"

definition BaseName :: "platform \<Rightarrow> wstring \<Rightarrow> wstring" where
  "BaseName P path = (if IsDirectoryPath P path then filename P path else stem P path)"

text \<open>The loop of \<^verbatim>\<open>DefaultArchiveName\<close> that compares every parent with the first one.\<close>

fun allSameParent_loop :: "platform \<Rightarrow> wstring \<Rightarrow> wstring list \<Rightarrow> bool" where
  "allSameParent_loop P parent [] = True"
| "allSameParent_loop P parent (p # ps) =
     (if \<not> path_eq P (parent_path P p) parent then False
      else allSameParent_loop P parent ps)"

definition DefaultArchiveName :: "platform \<Rightarrow> wstring list \<Rightarrow> wstring \<Rightarrow> wstring" where
  "DefaultArchiveName P paths ext =
     (if paths = [] then ''Archive'' @ ext
      else if length paths = 1 then BaseName P (paths ! 0) @ ext
      else
        let parent = parent_path P (paths ! 0);
            allSameParent = allSameParent_loop P parent paths
        in if allSameParent \<and> \<not> (filename P parent = [])
           then filename P parent @ ext
           else ''Archive'' @ ext)"

section \<open>Command identifiers and the shell's types\<close>

datatype CommandID =
    CmdNone
  | Open | Test | ExtractFiles | ExtractHere | ExtractTo
  | AddToArchive | AddTo7z | AddToZip
  | EmailArchive | Email7z | EmailZip
  | CRCMenu | CRC32 | CRC64 | SHA1 | SHA256

datatype HRESULT =
    S_OK | S_FALSE | E_POINTER | E_NOTIMPL | E_NOINTERFACE
  | CLASS_E_NOAGGREGATION | CLASS_E_CLASSNOTAVAILABLE

datatype EXPCMDSTATE = ECS_ENABLED | ECS_DISABLED | ECS_HIDDEN

text \<open>
  A shell item answers \<^verbatim>\<open>GetDisplayName(SIGDN_FILESYSPATH)\<close> with a string, or fails
  (or hands back a null string). An item array answers \<^verbatim>\<open>GetCount\<close> with a count or
  fails, and \<^verbatim>\<open>GetItemAt\<close> with an item or fails. A null array pointer is \<open>None\<close>.
\<close>

datatype IShellItem = IShellItem (GetDisplayName: "wstring option")

record IShellItemArray =
  GetCount :: "nat option"
  GetItemAt :: "nat \<Rightarrow> IShellItem option"

definition GetItemPath :: "IShellItem \<Rightarrow> wstring" where
  "GetItemPath it = (case GetDisplayName it of Some s \<Rightarrow> s | None \<Rightarrow> [])"

fun CollectPaths_loop :: "IShellItemArray \<Rightarrow> nat list \<Rightarrow> wstring list \<Rightarrow> wstring list" where
  "CollectPaths_loop arr [] out = out"
| "CollectPaths_loop arr (i # is) out =
     (case GetItemAt arr i of
        Some it \<Rightarrow>
          (let p = GetItemPath it
           in if p \<noteq> [] then CollectPaths_loop arr is (out @ [p])
              else CollectPaths_loop arr is out)
      | None \<Rightarrow> CollectPaths_loop arr is out)"

definition CollectPaths :: "IShellItemArray option \<Rightarrow> wstring list" where
  "CollectPaths arr =
     (case arr of
        None \<Rightarrow> []
      | Some a \<Rightarrow>
          (case GetCount a of
             None \<Rightarrow> []
           | Some c \<Rightarrow> CollectPaths_loop a [0..<c] []))"

section \<open>ExplorerCommandBase: state and invocation\<close>

text \<open>The loop of \<^verbatim>\<open>GetState\<close> that clears \<^verbatim>\<open>allArchives\<close> at the first other extension.\<close>

fun allArchives_loop :: "platform \<Rightarrow> wstring list \<Rightarrow> bool" where
  "allArchives_loop P [] = True"
| "allArchives_loop P (p # ps) =
     (let ext = extension P p
      in if \<not> IsArchiveExt ext then False else allArchives_loop P ps)"

definition GetState ::
  "platform \<Rightarrow> CommandID \<Rightarrow> IShellItemArray option \<Rightarrow> HRESULT \<times> EXPCMDSTATE" where
  "GetState P m_id psiItemArray =
     (let paths = CollectPaths psiItemArray
      in if paths = [] then (S_OK, ECS_HIDDEN)
         else
           let allArchives = allArchives_loop P paths
           in (S_OK,
               case m_id of
                 Open \<Rightarrow>
                   if length paths = 1 \<and> allArchives then ECS_ENABLED else ECS_HIDDEN
               | Test \<Rightarrow> if allArchives then ECS_ENABLED else ECS_HIDDEN
               | ExtractFiles \<Rightarrow> if allArchives then ECS_ENABLED else ECS_HIDDEN
               | ExtractHere \<Rightarrow> if allArchives then ECS_ENABLED else ECS_HIDDEN
               | ExtractTo \<Rightarrow> if allArchives then ECS_ENABLED else ECS_HIDDEN
               | _ \<Rightarrow> ECS_ENABLED))"

text \<open>
  One call \<^verbatim>\<open>ShellRun(exe, args, cwd)\<close>. \<^verbatim>\<open>Invoke\<close> is modelled by the list of the
  calls it makes, in order.
\<close>

datatype Dispatch = ShellRun (exe: wstring) (args: wstring) (cwd: wstring)

fun quoteJoin_loop :: "wstring \<Rightarrow> wstring list \<Rightarrow> wstring" where
  "quoteJoin_loop s [] = s"
| \<open>quoteJoin_loop s (p # ps) = quoteJoin_loop (s @ ''"'' @ p @ ''" '') ps\<close>

definition quoteJoin :: "wstring list \<Rightarrow> wstring" where
  "quoteJoin v = quoteJoin_loop [] v"

text \<open>
  The loop shared, word for word, by the multi-archive branch of \<^verbatim>\<open>ExtractHere\<close> and
  by \<^verbatim>\<open>ExtractTo\<close>: one run per path, into the folder \<^verbatim>\<open>BaseName(p)\<close>.
\<close>

fun extract_each :: "platform \<Rightarrow> wstring \<Rightarrow> wstring list \<Rightarrow> Dispatch list \<Rightarrow> Dispatch list" where
  "extract_each P sevenZG [] runs = runs"
| \<open>extract_each P sevenZG (p # ps) runs =
     (let folder = BaseName P p;
          args = ''x -y -o"'' @ folder @ bslash @ ''" "'' @ p @ ''"''
      in extract_each P sevenZG ps (runs @ [ShellRun sevenZG args []]))\<close>

definition Invoke ::
  "platform \<Rightarrow> CommandID \<Rightarrow> IShellItemArray option \<Rightarrow> HRESULT \<times> Dispatch list" where
  \<open>Invoke P m_id psiItemArray =
     (let paths = CollectPaths psiItemArray
      in if paths = [] then (S_OK, [])
         else
           let sevenZG = Find7zTool P ''7zG.exe'';
               sevenZ = Find7zTool P ''7z.exe'';
               sevenFM = Find7zTool P ''7zFM.exe''
           in (S_OK,
               case m_id of
                 Open \<Rightarrow> [ShellRun sevenFM (''"'' @ paths ! 0 @ ''"'') []]
               | Test \<Rightarrow> [ShellRun sevenZG (''t '' @ quoteJoin paths) []]
               | ExtractFiles \<Rightarrow> [ShellRun sevenZG (''x '' @ quoteJoin paths) []]
               | ExtractHere \<Rightarrow>
                   if length paths = 1
                   then [ShellRun sevenZG (''x -y "'' @ paths ! 0 @ ''"'') []]
                   else extract_each P sevenZG paths []
               | ExtractTo \<Rightarrow> extract_each P sevenZG paths []
               | AddToArchive \<Rightarrow> [ShellRun sevenZG (''a '' @ quoteJoin paths) []]
               | AddTo7z \<Rightarrow>
                   (let out = DefaultArchiveName P paths ''.7z''
                    in [ShellRun sevenZG (''a "'' @ out @ ''" '' @ quoteJoin paths) []])
               | AddToZip \<Rightarrow>
                   (let out = DefaultArchiveName P paths ''.zip''
                    in [ShellRun sevenZG
                          (''a -tzip "'' @ out @ ''" '' @ quoteJoin paths) []])
               | EmailArchive \<Rightarrow> [ShellRun sevenZG (''a '' @ quoteJoin paths) []]
               | Email7z \<Rightarrow>
                   (let out = DefaultArchiveName P paths ''.7z''
                    in [ShellRun sevenZG (''a "'' @ out @ ''" '' @ quoteJoin paths) []])
               | EmailZip \<Rightarrow>
                   (let out = DefaultArchiveName P paths ''.zip''
                    in [ShellRun sevenZG
                          (''a -tzip "'' @ out @ ''" '' @ quoteJoin paths) []])
               | CRC32 \<Rightarrow> [ShellRun sevenZ (''h -scrcCRC32 '' @ quoteJoin paths) []]
               | CRC64 \<Rightarrow> [ShellRun sevenZ (''h -scrcCRC64 '' @ quoteJoin paths) []]
               | SHA1 \<Rightarrow> [ShellRun sevenZ (''h -scrcSHA1 '' @ quoteJoin paths) []]
               | SHA256 \<Rightarrow> [ShellRun sevenZ (''h -scrcSHA256 '' @ quoteJoin paths) []]
               | _ \<Rightarrow> []))\<close>

section \<open>ExplorerCommandRoot\<close>

definition ExplorerCommandRoot_GetState ::
  "IShellItemArray option \<Rightarrow> bool \<Rightarrow> HRESULT \<times> EXPCMDSTATE" where
  "ExplorerCommandRoot_GetState psiItemArray fOkToBeSlow = (S_OK, ECS_ENABLED)"

section \<open>COM objects and their lifetime\<close>

text \<open>
  The objects of the module live in a store: an address is an index into \<open>heap\<close>, a
  freed cell is \<open>None\<close>, and \<^verbatim>\<open>new\<close> takes the next cell. \<^verbatim>\<open>LONG\<close> counters are
  32-bit words, so \<^verbatim>\<open>InterlockedIncrement\<close> and \<^verbatim>\<open>InterlockedDecrement\<close> wrap.
  An operation on a pointer that does not point to a live object of the expected class
  is undefined behaviour in the source and \<open>None\<close> here.
\<close>

type_synonym addr = nat

datatype IID =
    IID_IUnknown | IID_IExplorerCommand | IID_IEnumExplorerCommand | IID_IClassFactory
  | IID_Other

datatype object =
    ExplorerCommandBase "32 word" CommandID wstring
  | CRCMenuParent "32 word" CommandID wstring
  | ExplorerCommandRoot "32 word" "addr list" nat
  | CommandEnum "32 word" "addr list" nat
  | ClassFactory "32 word"

fun m_ref :: "object \<Rightarrow> 32 word" where
  "m_ref (ExplorerCommandBase r i t) = r"
| "m_ref (CRCMenuParent r i t) = r"
| "m_ref (ExplorerCommandRoot r subs idx) = r"
| "m_ref (CommandEnum r items idx) = r"
| "m_ref (ClassFactory r) = r"

fun set_m_ref :: "32 word \<Rightarrow> object \<Rightarrow> object" where
  "set_m_ref c (ExplorerCommandBase r i t) = ExplorerCommandBase c i t"
| "set_m_ref c (CRCMenuParent r i t) = CRCMenuParent c i t"
| "set_m_ref c (ExplorerCommandRoot r subs idx) = ExplorerCommandRoot c subs idx"
| "set_m_ref c (CommandEnum r items idx) = CommandEnum c items idx"
| "set_m_ref c (ClassFactory r) = ClassFactory c"

record dll =
  heap :: "object option list"
  g_ObjCount :: "32 word"
  g_LockCount :: "32 word"

definition deref :: "dll \<Rightarrow> addr \<Rightarrow> object option" where
  "deref s a = (if a < length (heap s) then heap s ! a else None)"

definition new :: "object \<Rightarrow> dll \<Rightarrow> addr \<times> dll" where
  "new ob s = (length (heap s), s\<lparr>heap := heap s @ [Some ob]\<rparr>)"

definition store :: "addr \<Rightarrow> object \<Rightarrow> dll \<Rightarrow> dll" where
  "store a ob s = s\<lparr>heap := (heap s)[a := Some ob]\<rparr>"

definition delete :: "addr \<Rightarrow> dll \<Rightarrow> dll" where
  "delete a s = s\<lparr>heap := (heap s)[a := None]\<rparr>"

subsection \<open>Reference counting\<close>

text \<open>\<^verbatim>\<open>AddRef\<close> has the same body in every class.\<close>

definition AddRef :: "addr \<Rightarrow> dll \<Rightarrow> (32 word \<times> dll) option" where
  "AddRef a s =
     (case deref s a of
        None \<Rightarrow> None
      | Some ob \<Rightarrow> (let c = m_ref ob + 1 in Some (c, store a (set_m_ref c ob) s)))"

text \<open>
  \<^verbatim>\<open>ExplorerCommandBase::Release\<close>, inherited by \<^verbatim>\<open>CRCMenuParent\<close>; the destructor
  decrements \<^verbatim>\<open>g_ObjCount\<close>.
\<close>

definition Release_command :: "addr \<Rightarrow> dll \<Rightarrow> (32 word \<times> dll) option" where
  "Release_command a s =
     (case deref s a of
        Some (ExplorerCommandBase r i t) \<Rightarrow>
          (let c = r - 1
           in if c = 0
              then Some (c, delete a (s\<lparr>g_ObjCount := g_ObjCount s - 1\<rparr>))
              else Some (c, store a (ExplorerCommandBase c i t) s))
      | Some (CRCMenuParent r i t) \<Rightarrow>
          (let c = r - 1
           in if c = 0
              then Some (c, delete a (s\<lparr>g_ObjCount := g_ObjCount s - 1\<rparr>))
              else Some (c, store a (CRCMenuParent c i t) s))
      | _ \<Rightarrow> None)"

text \<open>
  The loops \<^verbatim>\<open>for (auto* i : items) if (i) i->Release();\<close> and
  \<^verbatim>\<open>for (auto* i : items) if (i) i->AddRef();\<close>. Every pointer the module stores in
  \<^verbatim>\<open>items\<close> or \<^verbatim>\<open>subs\<close> comes from \<^verbatim>\<open>new ExplorerCommandBase\<close> or
  \<^verbatim>\<open>new CRCMenuParent\<close>, so none is null.
\<close>

fun Release_each :: "addr list \<Rightarrow> dll \<Rightarrow> dll option" where
  "Release_each [] s = Some s"
| "Release_each (i # is) s =
     (case Release_command i s of
        None \<Rightarrow> None
      | Some (c, s') \<Rightarrow> Release_each is s')"

fun AddRef_each :: "addr list \<Rightarrow> dll \<Rightarrow> dll option" where
  "AddRef_each [] s = Some s"
| "AddRef_each (i # is) s =
     (case AddRef i s of
        None \<Rightarrow> None
      | Some (c, s') \<Rightarrow> AddRef_each is s')"

text \<open>\<^verbatim>\<open>Release\<close> through any interface pointer, with the destructor of the class.\<close>

definition Release :: "addr \<Rightarrow> dll \<Rightarrow> (32 word \<times> dll) option" where
  "Release a s =
     (case deref s a of
        None \<Rightarrow> None
      | Some (ExplorerCommandBase r i t) \<Rightarrow> Release_command a s
      | Some (CRCMenuParent r i t) \<Rightarrow> Release_command a s
      | Some (ExplorerCommandRoot r subs idx) \<Rightarrow>
          (let c = r - 1
           in if c = 0
              then (case Release_each subs s of
                      None \<Rightarrow> None
                    | Some s' \<Rightarrow> Some (c, delete a (s'\<lparr>g_ObjCount := g_ObjCount s' - 1\<rparr>)))
              else Some (c, store a (ExplorerCommandRoot c subs idx) s))
      | Some (CommandEnum r items idx) \<Rightarrow>
          (let c = r - 1
           in if c = 0
              then (case Release_each items s of
                      None \<Rightarrow> None
                    | Some s' \<Rightarrow> Some (c, delete a s'))
              else Some (c, store a (CommandEnum c items idx) s))
      | Some (ClassFactory r) \<Rightarrow>
          (let c = r - 1
           in if c = 0 then Some (c, delete a s)
              else Some (c, store a (ClassFactory c) s)))"

text \<open>The interfaces each class answers to in \<^verbatim>\<open>QueryInterface\<close>.\<close>

fun answers :: "object \<Rightarrow> IID \<Rightarrow> bool" where
  "answers (ExplorerCommandBase r i t) riid =
     (riid = IID_IUnknown \<or> riid = IID_IExplorerCommand)"
| "answers (CRCMenuParent r i t) riid =
     (riid = IID_IUnknown \<or> riid = IID_IExplorerCommand)"
| "answers (ExplorerCommandRoot r subs idx) riid =
     (riid = IID_IUnknown \<or> riid = IID_IExplorerCommand \<or> riid = IID_IEnumExplorerCommand)"
| "answers (CommandEnum r items idx) riid =
     (riid = IID_IUnknown \<or> riid = IID_IEnumExplorerCommand)"
| "answers (ClassFactory r) riid =
     (riid = IID_IUnknown \<or> riid = IID_IClassFactory)"

text \<open>\<open>ppv\<close> tells whether the out pointer is non-null.\<close>

definition QueryInterface :: "addr \<Rightarrow> IID \<Rightarrow> bool \<Rightarrow> dll \<Rightarrow> (HRESULT \<times> dll) option" where
  "QueryInterface a riid ppv s =
     (case deref s a of
        None \<Rightarrow> None
      | Some ob \<Rightarrow>
          if \<not> ppv then Some (E_POINTER, s)
          else if answers ob riid
          then (case AddRef a s of None \<Rightarrow> None | Some (c, s') \<Rightarrow> Some (S_OK, s'))
          else Some (E_NOINTERFACE, s))"

subsection \<open>Constructors\<close>

definition new_ExplorerCommandBase :: "CommandID \<Rightarrow> wstring \<Rightarrow> dll \<Rightarrow> addr \<times> dll" where
  "new_ExplorerCommandBase i title s =
     new (ExplorerCommandBase 1 i title) (s\<lparr>g_ObjCount := g_ObjCount s + 1\<rparr>)"

definition new_CRCMenuParent :: "dll \<Rightarrow> addr \<times> dll" where
  "new_CRCMenuParent s =
     new (CRCMenuParent 1 CRCMenu ''CRC SHA'') (s\<lparr>g_ObjCount := g_ObjCount s + 1\<rparr>)"

text \<open>
  A run of \<^verbatim>\<open>v.push_back(new ExplorerCommandBase(id, title));\<close> statements, given as
  the table of their arguments.
\<close>

fun push_back_new :: "(CommandID \<times> wstring) list \<Rightarrow> addr list \<Rightarrow> dll \<Rightarrow> addr list \<times> dll" where
  "push_back_new [] v s = (v, s)"
| "push_back_new ((i, title) # rest) v s =
     (let (a, s') = new_ExplorerCommandBase i title s
      in push_back_new rest (v @ [a]) s')"

definition new_CommandEnum :: "addr list \<Rightarrow> dll \<Rightarrow> (addr \<times> dll) option" where
  "new_CommandEnum v s =
     (case AddRef_each v s of
        None \<Rightarrow> None
      | Some s' \<Rightarrow> Some (new (CommandEnum 1 v 0) s'))"

definition root_commands :: "(CommandID \<times> wstring) list" where
  \<open>root_commands =
     [(Open, ''Open archive''),
      (ExtractFiles, ''Extract files...''),
      (ExtractHere, ''Extract Here''),
      (ExtractTo, ''Extract to '' @ bslash @ ''<Folder>'' @ bslash),
      (Test, ''Test archive''),
      (AddToArchive, ''Add to archive...''),
      (AddTo7z, ''Add to "<Name>.7z"''),
      (AddToZip, ''Add to "<Name>.zip"''),
      (EmailArchive, ''Compress and email...''),
      (Email7z, ''Compress to "<Name>.7z" and email''),
      (EmailZip, ''Compress to "<Name>.zip" and email'')]\<close>

definition new_ExplorerCommandRoot :: "dll \<Rightarrow> addr \<times> dll" where
  "new_ExplorerCommandRoot s =
     (let (r, s1) = new (ExplorerCommandRoot 1 [] 0) s;
          s2 = s1\<lparr>g_ObjCount := g_ObjCount s1 + 1\<rparr>;
          (v, s3) = push_back_new root_commands [] s2;
          (p, s4) = new_CRCMenuParent s3
      in (r, store r (ExplorerCommandRoot 1 (v @ [p]) 0) s4))"

subsection \<open>Submenus and the enumerator\<close>

definition crc_commands :: "(CommandID \<times> wstring) list" where
  "crc_commands =
     [(CRC32, ''CRC-32''), (CRC64, ''CRC-64''), (SHA1, ''SHA-1''), (SHA256, ''SHA-256'')]"

text \<open>
  \<^verbatim>\<open>EnumSubCommands\<close> by the class of the object: \<^verbatim>\<open>ExplorerCommandBase\<close> answers
  \<^verbatim>\<open>E_NOTIMPL\<close>, \<^verbatim>\<open>CRCMenuParent\<close> builds its four children, the root enumerates
  \<^verbatim>\<open>subs\<close>. The new enumerator is handed out after one more \<^verbatim>\<open>AddRef\<close>.
\<close>

definition CRCMenuParent_EnumSubCommands :: "dll \<Rightarrow> ((HRESULT \<times> addr) \<times> dll) option" where
  "CRCMenuParent_EnumSubCommands s =
     (let (v, s1) = push_back_new crc_commands [] s
      in case new_CommandEnum v s1 of
           None \<Rightarrow> None
         | Some (e, s2) \<Rightarrow>
             (case AddRef e s2 of
                None \<Rightarrow> None
              | Some (c, s3) \<Rightarrow> Some ((S_OK, e), s3)))"

definition EnumSubCommands :: "addr \<Rightarrow> dll \<Rightarrow> ((HRESULT \<times> addr option) \<times> dll) option" where
  "EnumSubCommands a s =
     (case deref s a of
        Some (ExplorerCommandBase r i t) \<Rightarrow> Some ((E_NOTIMPL, None), s)
      | Some (CRCMenuParent r i t) \<Rightarrow>
          (case CRCMenuParent_EnumSubCommands s of
             None \<Rightarrow> None
           | Some ((hr, e), s') \<Rightarrow> Some ((hr, Some e), s'))
      | Some (ExplorerCommandRoot r subs idx) \<Rightarrow>
          (case new_CommandEnum subs s of
             None \<Rightarrow> None
           | Some (e, s1) \<Rightarrow>
               (case AddRef e s1 of
                  None \<Rightarrow> None
                | Some (c, s2) \<Rightarrow> Some ((S_OK, Some e), s2)))
      | _ \<Rightarrow> None)"

text \<open>
  \<^verbatim>\<open>CommandEnum::Next\<close>: the loop runs while \<^verbatim>\<open>f < celt\<close> and
  \<^verbatim>\<open>idx < items.size()\<close>; the first argument counts the rounds \<^verbatim>\<open>celt - f\<close> left.
  Each round advances \<^verbatim>\<open>idx\<close> in the enumerator and then calls \<^verbatim>\<open>AddRef\<close> on the
  item it copied out.
\<close>

fun Next_loop :: "nat \<Rightarrow> addr \<Rightarrow> addr list \<Rightarrow> dll \<Rightarrow> (addr list \<times> dll) option" where
  "Next_loop 0 e rgelt s = Some (rgelt, s)"
| "Next_loop (Suc n) e rgelt s =
     (case deref s e of
        Some (CommandEnum r items idx) \<Rightarrow>
          if idx < length items
          then (case AddRef (items ! idx) (store e (CommandEnum r items (idx + 1)) s) of
                  None \<Rightarrow> None
                | Some (c, s') \<Rightarrow> Next_loop n e (rgelt @ [items ! idx]) s')
          else Some (rgelt, s)
      | _ \<Rightarrow> None)"

definition Next :: "addr \<Rightarrow> nat \<Rightarrow> dll \<Rightarrow> ((HRESULT \<times> addr list) \<times> dll) option" where
  "Next e celt s =
     (case deref s e of
        Some (CommandEnum r items idx) \<Rightarrow>
          (case Next_loop celt e [] s of
             None \<Rightarrow> None
           | Some (rgelt, s') \<Rightarrow>
               Some ((if length rgelt = celt then S_OK else S_FALSE, rgelt), s'))
      | Some (ExplorerCommandRoot r subs idx) \<Rightarrow> Some ((E_NOTIMPL, []), s)
      | _ \<Rightarrow> None)"

definition Skip :: "addr \<Rightarrow> nat \<Rightarrow> dll \<Rightarrow> (HRESULT \<times> dll) option" where
  "Skip e celt s =
     (case deref s e of
        Some (CommandEnum r items idx) \<Rightarrow>
          Some (S_OK, store e (CommandEnum r items (min (idx + celt) (length items))) s)
      | Some (ExplorerCommandRoot r subs idx) \<Rightarrow> Some (E_NOTIMPL, s)
      | _ \<Rightarrow> None)"

definition Reset :: "addr \<Rightarrow> dll \<Rightarrow> (HRESULT \<times> dll) option" where
  "Reset e s =
     (case deref s e of
        Some (CommandEnum r items idx) \<Rightarrow> Some (S_OK, store e (CommandEnum r items 0) s)
      | Some (ExplorerCommandRoot r subs idx) \<Rightarrow> Some (E_NOTIMPL, s)
      | _ \<Rightarrow> None)"

definition Clone :: "addr \<Rightarrow> bool \<Rightarrow> dll \<Rightarrow> ((HRESULT \<times> addr option) \<times> dll) option" where
  "Clone e pp s =
     (case deref s e of
        Some (CommandEnum r items idx) \<Rightarrow>
          if \<not> pp then Some ((E_POINTER, None), s)
          else (case new_CommandEnum items s of
                  None \<Rightarrow> None
                | Some (e', s') \<Rightarrow>
                    Some ((S_OK, Some e'), store e' (CommandEnum 1 items idx) s'))
      | Some (ExplorerCommandRoot r subs idx) \<Rightarrow> Some ((E_NOTIMPL, None), s)
      | _ \<Rightarrow> None)"

subsection \<open>Class factory and exports\<close>

definition CreateInstance ::
  "addr \<Rightarrow> bool \<Rightarrow> IID \<Rightarrow> bool \<Rightarrow> dll \<Rightarrow> (HRESULT \<times> dll) option" where
  "CreateInstance this pUnkOuter riid ppv s =
     (case deref s this of
        Some (ClassFactory r) \<Rightarrow>
          if pUnkOuter then Some (CLASS_E_NOAGGREGATION, s)
          else
            (let (obj, s1) = new_ExplorerCommandRoot s
             in case QueryInterface obj riid ppv s1 of
                  None \<Rightarrow> None
                | Some (hr, s2) \<Rightarrow>
                    (case Release obj s2 of
                       None \<Rightarrow> None
                     | Some (c, s3) \<Rightarrow> Some (hr, s3)))
      | _ \<Rightarrow> None)"

definition LockServer :: "addr \<Rightarrow> bool \<Rightarrow> dll \<Rightarrow> (HRESULT \<times> dll) option" where
  "LockServer this fLock s =
     (case deref s this of
        Some (ClassFactory r) \<Rightarrow>
          Some (S_OK,
                if fLock then s\<lparr>g_LockCount := g_LockCount s + 1\<rparr>
                else s\<lparr>g_LockCount := g_LockCount s - 1\<rparr>)
      | _ \<Rightarrow> None)"

definition DllCanUnloadNow :: "dll \<Rightarrow> HRESULT" where
  "DllCanUnloadNow s = (if g_ObjCount s = 0 \<and> g_LockCount s = 0 then S_OK else S_FALSE)"

text \<open>\<open>rclsid_ours\<close> tells whether \<^verbatim>\<open>rclsid\<close> is \<^verbatim>\<open>CLSID_SevenZipExplorer\<close>.\<close>

definition DllGetClassObject :: "bool \<Rightarrow> IID \<Rightarrow> bool \<Rightarrow> dll \<Rightarrow> (HRESULT \<times> dll) option" where
  "DllGetClassObject rclsid_ours riid ppv s =
     (if \<not> rclsid_ours then Some (CLASS_E_CLASSNOTAVAILABLE, s)
      else
        (let (cf, s1) = new (ClassFactory 1) s
         in case QueryInterface cf riid ppv s1 of
              None \<Rightarrow> None
            | Some (hr, s2) \<Rightarrow>
                (case Release cf s2 of
                   None \<Rightarrow> None
                 | Some (c, s3) \<Rightarrow> Some (hr, s3))))"

subsection \<open>The host's calls\<close>

text \<open>
  The calls through which the host creates, shares and destroys the module's objects.
  \<^verbatim>\<open>GetTitle\<close>, \<^verbatim>\<open>GetState\<close>, \<^verbatim>\<open>GetFlags\<close> and \<^verbatim>\<open>Invoke\<close> touch neither the
  store nor the counters. The module starts with an empty store and both counters 0.
\<close>

datatype call =
    Call_DllGetClassObject bool IID bool
  | Call_CreateInstance addr bool IID bool
  | Call_LockServer addr bool
  | Call_QueryInterface addr IID bool
  | Call_AddRef addr
  | Call_Release addr
  | Call_EnumSubCommands addr
  | Call_Next addr nat
  | Call_Skip addr nat
  | Call_Reset addr
  | Call_Clone addr bool

fun exec :: "call \<Rightarrow> dll \<Rightarrow> dll option" where
  "exec (Call_DllGetClassObject c riid ppv) s = map_option snd (DllGetClassObject c riid ppv s)"
| "exec (Call_CreateInstance f outer riid ppv) s = map_option snd (CreateInstance f outer riid ppv s)"
| "exec (Call_LockServer f fLock) s = map_option snd (LockServer f fLock s)"
| "exec (Call_QueryInterface a riid ppv) s = map_option snd (QueryInterface a riid ppv s)"
| "exec (Call_AddRef a) s = map_option snd (AddRef a s)"
| "exec (Call_Release a) s = map_option snd (Release a s)"
| "exec (Call_EnumSubCommands a) s = map_option snd (EnumSubCommands a s)"
| "exec (Call_Next e celt) s = map_option snd (Next e celt s)"
| "exec (Call_Skip e celt) s = map_option snd (Skip e celt s)"
| "exec (Call_Reset e) s = map_option snd (Reset e s)"
| "exec (Call_Clone e pp) s = map_option snd (Clone e pp s)"

fun run :: "call list \<Rightarrow> dll \<Rightarrow> dll option" where
  "run [] s = Some s"
| "run (c # cs) s = (case exec c s of None \<Rightarrow> None | Some s' \<Rightarrow> run cs s')"

definition loaded :: dll where
  "loaded = \<lparr>heap = [], g_ObjCount = 0, g_LockCount = 0\<rparr>"

text \<open>
  The live command objects: the cells that hold an \<^verbatim>\<open>ExplorerCommandBase\<close>, a
  \<^verbatim>\<open>CRCMenuParent\<close> or an \<^verbatim>\<open>ExplorerCommandRoot\<close>. Enumerators and class factories
  are not commands, and their constructors leave \<^verbatim>\<open>g_ObjCount\<close> alone.
\<close>

fun is_command :: "object option \<Rightarrow> bool" where
  "is_command (Some (ExplorerCommandBase r i t)) = True"
| "is_command (Some (CRCMenuParent r i t)) = True"
| "is_command (Some (ExplorerCommandRoot r subs idx)) = True"
| "is_command _ = False"

definition live_commands :: "dll \<Rightarrow> nat" where
  "live_commands s = length (filter is_command (heap s))"

text \<open>The identifier of the command at an address, for reading an enumeration.\<close>

definition command_id :: "dll \<Rightarrow> addr \<Rightarrow> CommandID option" where
  "command_id s a =
     (case deref s a of
        Some (ExplorerCommandBase r i t) \<Rightarrow> Some i
      | Some (CRCMenuParent r i t) \<Rightarrow> Some i
      | _ \<Rightarrow> None)"

text \<open>
  Expanding the CRC submenu \<open>n\<close> times in a row, each time reading all children with
  one \<^verbatim>\<open>Next\<close> that asks for more than there are; the result lists the identifiers
  each expansion gave.
\<close>

fun expand_CRCMenu :: "nat \<Rightarrow> dll \<Rightarrow> (CommandID option list list \<times> dll) option" where
  "expand_CRCMenu 0 s = Some ([], s)"
| "expand_CRCMenu (Suc n) s =
     (case CRCMenuParent_EnumSubCommands s of
        None \<Rightarrow> None
      | Some ((hr, e), s1) \<Rightarrow>
          (case Next e 5 s1 of
             None \<Rightarrow> None
           | Some ((hr', rgelt), s2) \<Rightarrow>
               (case expand_CRCMenu n s2 of
                  None \<Rightarrow> None
                | Some (rest, s3) \<Rightarrow> Some (map (command_id s2) rgelt # rest, s3))))"

text \<open>
  How far the counter is from the number of live command objects, and the two classes
  whose objects are only ever referred to by \<^verbatim>\<open>subs\<close> and \<^verbatim>\<open>items\<close>.
\<close>

definition drift :: "dll \<Rightarrow> 32 word" where
  "drift s = g_ObjCount s - of_nat (live_commands s)"

fun is_leaf :: "object \<Rightarrow> bool" where
  "is_leaf (ExplorerCommandBase r i t) = True"
| "is_leaf (CRCMenuParent r i t) = True"
| "is_leaf _ = False"

section \<open>A sample platform and selection\<close>

text \<open>
  One concrete platform and file system, on which the general theorems are instantiated:
  a simple reading of drive-letter paths, with \<open>win\<close> turning \<^verbatim>\<open>/\<close> into the backslash
  so that paths can be written as literals.
\<close>

definition win :: "string \<Rightarrow> wstring" where
  "win s = map (\<lambda>c. if c = CHR ''/'' then CHR 0x5C else c) s"

definition is_slash :: "char \<Rightarrow> bool" where
  "is_slash c = (c = CHR 0x5C \<or> c = CHR ''/'')"

definition sample_root :: "wstring \<Rightarrow> wstring" where
  "sample_root s =
     (case s of
        d # c # r \<Rightarrow>
          (if c = CHR '':'' then [d, c] @ takeWhile is_slash r else takeWhile is_slash s)
      | _ \<Rightarrow> takeWhile is_slash s)"

definition sample_relative :: "wstring \<Rightarrow> wstring" where
  "sample_relative s = drop (length (sample_root s)) s"

definition sample_filename :: "wstring \<Rightarrow> wstring" where
  "sample_filename s = rev (takeWhile (\<lambda>c. \<not> is_slash c) (rev (sample_relative s)))"

definition sample_parent_path :: "wstring \<Rightarrow> wstring" where
  "sample_parent_path s =
     (if sample_relative s = [] then s
      else sample_root s @
           rev (dropWhile is_slash
                  (dropWhile (\<lambda>c. \<not> is_slash c) (rev (sample_relative s)))))"

definition sample_extension :: "wstring \<Rightarrow> wstring" where
  "sample_extension s =
     (let f = sample_filename s;
          e = rev (takeWhile (\<lambda>c. c \<noteq> CHR ''.'') (rev f))
      in if f = ''.'' \<or> f = ''..'' \<or> CHR ''.'' \<notin> set f \<or> length e + 1 = length f then []
         else CHR ''.'' # e)"

definition sample_stem :: "wstring \<Rightarrow> wstring" where
  "sample_stem s =
     (let f = sample_filename s in take (length f - length (sample_extension s)) f)"

definition sample_attributes :: "wstring \<Rightarrow> 32 word" where
  "sample_attributes p =
     (case map_of
        [(win ''C:/Program Files/7-Zip/7zG.exe'', 0x20),
         (win ''C:/dir'', 0x10),
         (win ''C:/dir/sub'', 0x10),
         (win ''C:/dir/backup.zip'', 0x10),
         (win ''C:/dir/X.7z'', 0x20),
         (win ''C:/dir/Y.7z'', 0x20),
         (win ''C:/dir/file.txt'', 0x20),
         (win ''C:/dir/a.txt'', 0x20),
         (win ''C:/dir/b.txt'', 0x20),
         (win ''C:/d1/a.txt'', 0x20),
         (win ''C:/d2/b.txt'', 0x20)] p of
        Some a \<Rightarrow> a
      | None \<Rightarrow> 0xFFFFFFFF)"

definition sample_platform :: platform where
  "sample_platform =
     \<lparr> GetFileAttributesW = sample_attributes,
       GetModuleFileNameW = win ''C:/Program Files/7-Zip/7Zip.ShellExtension.dll'',
       PathRemoveFileSpecW = sample_parent_path,
       PathAppendW = (\<lambda>a b. a @ bslash @ b),
       filename = sample_filename,
       stem = sample_stem,
       extension = sample_extension,
       parent_path = sample_parent_path,
       path_eq = (=) \<rparr>"

definition selection :: "wstring list \<Rightarrow> IShellItemArray option" where
  "selection ps =
     Some \<lparr> GetCount = Some (length ps),
            GetItemAt =
              (\<lambda>i. if i < length ps then Some (IShellItem (Some (ps ! i))) else None) \<rparr>"

section \<open>Facts about the loops\<close>

lemma wcsicmp_eq_0: "(wcsicmp a b = 0) = (map towlower a = map towlower b)"
  by (induction a b rule: wcsicmp.induct) (auto simp: Let_def)

lemma IsArchiveExt_loop_iff:
  "IsArchiveExt_loop ext es = (\<exists>e\<in>set es. map towlower (c_str ext) = map towlower e)"
  by (induction es) (auto simp: wcsicmp_eq_0)

lemma towlower_exts: "map (map towlower) exts = exts"
  by (simp add: exts_def towlower_def)

lemma IsArchiveExt_iff: "IsArchiveExt ext = (map towlower (c_str ext) \<in> set exts)"
proof -
  have "IsArchiveExt ext = (map towlower (c_str ext) \<in> set (map (map towlower) exts))"
    unfolding IsArchiveExt_def IsArchiveExt_loop_iff by auto
  then show ?thesis by (simp only: towlower_exts)
qed

lemma allArchives_loop_iff:
  "allArchives_loop P ps = (\<forall>p\<in>set ps. IsArchiveExt (extension P p))"
  by (induction ps) (auto simp: Let_def)

lemma allSameParent_loop_iff:
  "allSameParent_loop P parent ps = (\<forall>p\<in>set ps. path_eq P (parent_path P p) parent)"
  by (induction ps) auto

lemma extract_each_eq:
  \<open>extract_each P z ps runs =
     runs @ map (\<lambda>p. ShellRun z (''x -y -o"'' @ BaseName P p @ bslash @ ''" "'' @ p @ ''"'') []) ps\<close>
  by (induction ps arbitrary: runs) (simp_all add: Let_def)

section \<open>Extraction layout\<close>

text \<open>
  Claim C1. \<^verbatim>\<open>Invoke\<close> of \<^verbatim>\<open>ExtractHere\<close> on a selection of exactly one path \<open>p\<close>
  makes a single run of 7zG with the arguments \<^verbatim>\<open>x -y "p"\<close>: the archive is extracted in
  place, with no \<^verbatim>\<open>-o\<close> output folder. On a selection of more than one path it
  makes one run per path, in selection order, each with \<^verbatim>\<open>-o"<folder>\"\<close> where the
  folder is \<^verbatim>\<open>BaseName\<close> of that path (the default extract folder name).
\<close>

theorem ExtractHere_dispatch:
  \<open>(CollectPaths arr = [p] \<longrightarrow>
      Invoke P ExtractHere arr =
        (S_OK, [ShellRun (Find7zTool P ''7zG.exe'') (''x -y "'' @ p @ ''"'') []])) \<and>
   (1 < length (CollectPaths arr) \<longrightarrow>
      Invoke P ExtractHere arr =
        (S_OK,
         map (\<lambda>p. ShellRun (Find7zTool P ''7zG.exe'')
                    (''x -y -o"'' @ BaseName P p @ bslash @ ''" "'' @ p @ ''"'') [])
           (CollectPaths arr)))\<close>
  by (auto simp: Invoke_def Let_def extract_each_eq)

theorem ExtractHere_dispatch_witness:
  \<open>CollectPaths (selection [win ''C:/dir/X.7z'']) = [win ''C:/dir/X.7z''] \<and>
   Invoke sample_platform ExtractHere (selection [win ''C:/dir/X.7z'']) =
     (S_OK, [ShellRun (win ''C:/Program Files/7-Zip/7zG.exe'')
               (''x -y "'' @ win ''C:/dir/X.7z'' @ ''"'') []]) \<and>
   1 < length (CollectPaths (selection [win ''C:/dir/X.7z'', win ''C:/dir/Y.7z''])) \<and>
   Invoke sample_platform ExtractHere (selection [win ''C:/dir/X.7z'', win ''C:/dir/Y.7z'']) =
     (S_OK, [ShellRun (win ''C:/Program Files/7-Zip/7zG.exe'')
               (''x -y -o"X'' @ bslash @ ''" "'' @ win ''C:/dir/X.7z'' @ ''"'') [],
             ShellRun (win ''C:/Program Files/7-Zip/7zG.exe'')
               (''x -y -o"Y'' @ bslash @ ''" "'' @ win ''C:/dir/Y.7z'' @ ''"'') []])\<close>
proof -
  have one: "CollectPaths (selection [win ''C:/dir/X.7z'']) = [win ''C:/dir/X.7z'']"
    and two: "CollectPaths (selection [win ''C:/dir/X.7z'', win ''C:/dir/Y.7z'']) =
      [win ''C:/dir/X.7z'', win ''C:/dir/Y.7z'']"
    and tool: "Find7zTool sample_platform ''7zG.exe'' = win ''C:/Program Files/7-Zip/7zG.exe''"
    and x: "BaseName sample_platform (win ''C:/dir/X.7z'') = ''X''"
    and y: "BaseName sample_platform (win ''C:/dir/Y.7z'') = ''Y''"
    by code_simp+
  show ?thesis
    using ExtractHere_dispatch [of "selection [win ''C:/dir/X.7z'']" "win ''C:/dir/X.7z''"
        sample_platform]
      ExtractHere_dispatch [of "selection [win ''C:/dir/X.7z'', win ''C:/dir/Y.7z'']" "[]"
        sample_platform]
    by (simp add: one two tool x y)
qed

text \<open>
  Claim C2. \<^verbatim>\<open>Invoke\<close> of \<^verbatim>\<open>ExtractTo\<close> on every non-empty selection makes one
  run per path, each into the folder \<^verbatim>\<open>BaseName\<close> of that path, also when the selection
  has exactly one path; for that one-path selection \<^verbatim>\<open>ExtractTo\<close> passes an output
  folder and \<^verbatim>\<open>ExtractHere\<close> does not, so the two differ.
\<close>

theorem ExtractTo_dispatch:
  \<open>(CollectPaths arr \<noteq> [] \<longrightarrow>
      Invoke P ExtractTo arr =
        (S_OK,
         map (\<lambda>p. ShellRun (Find7zTool P ''7zG.exe'')
                    (''x -y -o"'' @ BaseName P p @ bslash @ ''" "'' @ p @ ''"'') [])
           (CollectPaths arr))) \<and>
   (CollectPaths arr = [p] \<longrightarrow>
      Invoke P ExtractTo arr =
        (S_OK, [ShellRun (Find7zTool P ''7zG.exe'')
                  (''x -y -o"'' @ BaseName P p @ bslash @ ''" "'' @ p @ ''"'') []]) \<and>
      Invoke P ExtractHere arr =
        (S_OK, [ShellRun (Find7zTool P ''7zG.exe'') (''x -y "'' @ p @ ''"'') []]) \<and>
      Invoke P ExtractTo arr \<noteq> Invoke P ExtractHere arr)\<close>
  by (auto simp: Invoke_def Let_def extract_each_eq)

theorem ExtractTo_dispatch_witness:
  \<open>CollectPaths (selection [win ''C:/dir/X.7z'']) = [win ''C:/dir/X.7z''] \<and>
   CollectPaths (selection [win ''C:/dir/X.7z'']) \<noteq> [] \<and>
   Invoke sample_platform ExtractTo (selection [win ''C:/dir/X.7z'']) =
     (S_OK, [ShellRun (win ''C:/Program Files/7-Zip/7zG.exe'')
               (''x -y -o"X'' @ bslash @ ''" "'' @ win ''C:/dir/X.7z'' @ ''"'') []]) \<and>
   Invoke sample_platform ExtractTo (selection [win ''C:/dir/X.7z'']) \<noteq>
     Invoke sample_platform ExtractHere (selection [win ''C:/dir/X.7z''])\<close>
proof -
  have one: "CollectPaths (selection [win ''C:/dir/X.7z'']) = [win ''C:/dir/X.7z'']"
    by code_simp
  have tool: "Find7zTool sample_platform ''7zG.exe'' = win ''C:/Program Files/7-Zip/7zG.exe''"
    by code_simp
  have x: "BaseName sample_platform (win ''C:/dir/X.7z'') = ''X''"
    by code_simp
  show ?thesis
    using ExtractTo_dispatch [of "selection [win ''C:/dir/X.7z'']" sample_platform "win ''C:/dir/X.7z''"]
    by (simp add: one tool x)
qed

section \<open>Default archive name\<close>

text \<open>
  Claim C3. For every extension \<open>ext\<close>, \<^verbatim>\<open>DefaultArchiveName\<close> gives
  \<^verbatim>\<open>Archive\<close> + \<open>ext\<close> for the empty selection; for a selection of one path its base
  name (the file name of a directory, the stem of anything else) + \<open>ext\<close>; and for two
  or more paths the file name of the first path's parent + \<open>ext\<close> when every path's
  parent compares equal to it and that file name is not empty, and
  \<^verbatim>\<open>Archive\<close> + \<open>ext\<close> otherwise.
\<close>

theorem DefaultArchiveName_cases:
  "DefaultArchiveName P [] ext = ''Archive'' @ ext \<and>
   DefaultArchiveName P [p] ext =
     (if IsDirectoryPath P p then filename P p else stem P p) @ ext \<and>
   (2 \<le> length paths \<longrightarrow>
      DefaultArchiveName P paths ext =
        (let parent = parent_path P (hd paths)
         in if (\<forall>q\<in>set paths. path_eq P (parent_path P q) parent) \<and> filename P parent \<noteq> []
            then filename P parent @ ext
            else ''Archive'' @ ext))"
  by (cases paths) (auto simp: DefaultArchiveName_def BaseName_def Let_def allSameParent_loop_iff)

theorem DefaultArchiveName_cases_witness:
  "2 \<le> length [win ''C:/dir/a.txt'', win ''C:/dir/b.txt''] \<and>
   DefaultArchiveName sample_platform [win ''C:/dir/a.txt'', win ''C:/dir/b.txt''] ''.7z'' = ''dir.7z'' \<and>
   DefaultArchiveName sample_platform [win ''C:/d1/a.txt'', win ''C:/d2/b.txt''] ''.7z'' = ''Archive.7z'' \<and>
   DefaultArchiveName sample_platform [win ''C:/dir/file.txt''] ''.7z'' = ''file.7z'' \<and>
   DefaultArchiveName sample_platform [win ''C:/dir/sub''] ''.zip'' = ''sub.zip'' \<and>
   DefaultArchiveName sample_platform [] ''.7z'' = ''Archive.7z''"
proof -
  have p1: "parent_path sample_platform (win ''C:/dir/a.txt'') = win ''C:/dir''"
    and p2: "parent_path sample_platform (win ''C:/dir/b.txt'') = win ''C:/dir''"
    and p3: "parent_path sample_platform (win ''C:/d1/a.txt'') = win ''C:/d1''"
    and p4: "parent_path sample_platform (win ''C:/d2/b.txt'') = win ''C:/d2''"
    and f1: "filename sample_platform (win ''C:/dir'') = ''dir''"
    and ne: "win ''C:/d2'' \<noteq> win ''C:/d1''"
    and d1: "\<not> IsDirectoryPath sample_platform (win ''C:/dir/file.txt'')"
    and s1: "stem sample_platform (win ''C:/dir/file.txt'') = ''file''"
    and d2: "IsDirectoryPath sample_platform (win ''C:/dir/sub'')"
    and f2: "filename sample_platform (win ''C:/dir/sub'') = ''sub''"
    by code_simp+
  have eq: "path_eq sample_platform = (=)"
    by (simp add: sample_platform_def)
  show ?thesis
    using DefaultArchiveName_cases [of sample_platform "''.7z''" "win ''C:/dir/file.txt''"
        "[win ''C:/dir/a.txt'', win ''C:/dir/b.txt'']"]
      DefaultArchiveName_cases [of sample_platform "''.7z''" "[]"
        "[win ''C:/d1/a.txt'', win ''C:/d2/b.txt'']"]
      DefaultArchiveName_cases [of sample_platform "''.zip''" "win ''C:/dir/sub''" "[]"]
    by (simp add: p1 p2 p3 p4 f1 ne eq d1 s1 d2 f2)
qed

section \<open>Visibility\<close>

text \<open>
  Claim C4, as the code has it. For a non-empty list of paths the flag
  \<^verbatim>\<open>allArchives\<close> of \<^verbatim>\<open>GetState\<close> is true exactly when the extension of every
  path, lower-cased, is in the allow-list; nothing asks whether a path is a regular file
  or a directory. For an empty selection \<^verbatim>\<open>GetState\<close> answers hidden before the flag
  is computed.
\<close>

theorem allArchives_by_extension:
  "(paths \<noteq> [] \<longrightarrow>
      allArchives_loop P paths =
        (\<forall>p\<in>set paths. map towlower (c_str (extension P p)) \<in> set exts)) \<and>
   (CollectPaths arr = [] \<longrightarrow> GetState P m_id arr = (S_OK, ECS_HIDDEN))"
  by (simp add: allArchives_loop_iff IsArchiveExt_iff GetState_def)

theorem allArchives_by_extension_witness:
  "[win ''C:/dir/X.7Z'', win ''C:/dir/backup.zip''] \<noteq> [] \<and>
   allArchives_loop sample_platform [win ''C:/dir/X.7Z'', win ''C:/dir/backup.zip''] \<and>
   [win ''C:/dir/X.7z'', win ''C:/dir/file.txt''] \<noteq> [] \<and>
   \<not> allArchives_loop sample_platform [win ''C:/dir/X.7z'', win ''C:/dir/file.txt''] \<and>
   CollectPaths None = [] \<and>
   GetState sample_platform Test None = (S_OK, ECS_HIDDEN)"
proof -
  have e1: "map towlower (c_str (extension sample_platform (win ''C:/dir/X.7Z''))) = ''.7z''"
    and e2: "map towlower (c_str (extension sample_platform (win ''C:/dir/backup.zip''))) = ''.zip''"
    and e3: "map towlower (c_str (extension sample_platform (win ''C:/dir/X.7z''))) = ''.7z''"
    and e4: "map towlower (c_str (extension sample_platform (win ''C:/dir/file.txt''))) = ''.txt''"
    and n: "CollectPaths None = []"
    by code_simp+
  show ?thesis
    using allArchives_by_extension [of "[win ''C:/dir/X.7Z'', win ''C:/dir/backup.zip'']"
        sample_platform None Test]
      allArchives_by_extension [of "[win ''C:/dir/X.7z'', win ''C:/dir/file.txt'']"
        sample_platform None Test]
    by (simp add: e1 e2 e3 e4 n exts_def)
qed

text \<open>
  So \<^verbatim>\<open>allArchives\<close> does not imply that every entry is a regular file. On the
  sample platform \<^verbatim>\<open>C:\dir\backup.zip\<close> is a directory, not a regular file
  (\<^verbatim>\<open>FileExists\<close> is false), yet the flag is true for the selection that holds
  only it, and \<^verbatim>\<open>ExtractHere\<close> is enabled.
\<close>

theorem allArchives_regular_file_counterexample:
  "allArchives_loop sample_platform (CollectPaths (selection [win ''C:/dir/backup.zip''])) \<and>
   IsDirectoryPath sample_platform (win ''C:/dir/backup.zip'') \<and>
   \<not> FileExists sample_platform (win ''C:/dir/backup.zip'') \<and>
   GetState sample_platform ExtractHere (selection [win ''C:/dir/backup.zip'']) = (S_OK, ECS_ENABLED)"
  by code_simp

text \<open>
  Claim C5. For every command identifier, \<^verbatim>\<open>GetState\<close> on a selection that yields
  no path (a null array, a failing or empty array) sets the state to hidden and returns
  \<^verbatim>\<open>S_OK\<close>.
\<close>

theorem GetState_empty_hidden:
  "CollectPaths arr = [] \<Longrightarrow> GetState P m_id arr = (S_OK, ECS_HIDDEN)"
  by (simp add: GetState_def)

theorem GetState_empty_hidden_witness:
  "CollectPaths None = [] \<and> GetState sample_platform Open None = (S_OK, ECS_HIDDEN) \<and>
   CollectPaths (selection []) = [] \<and>
   GetState sample_platform AddTo7z (selection []) = (S_OK, ECS_HIDDEN) \<and>
   GetState sample_platform CRCMenu (selection []) = (S_OK, ECS_HIDDEN)"
proof -
  have n: "CollectPaths None = []" and e: "CollectPaths (selection []) = []"
    by code_simp+
  show ?thesis
    using GetState_empty_hidden [OF n, of sample_platform Open]
      GetState_empty_hidden [OF e, of sample_platform AddTo7z]
      GetState_empty_hidden [OF e, of sample_platform CRCMenu]
    by (simp add: n e)
qed

text \<open>
  Claim C6, as the code has it. \<^verbatim>\<open>GetState\<close> of \<^verbatim>\<open>Open\<close> is enabled if and only
  if the selection has exactly one path and the extension of that path, lower-cased, is
  in the allow-list; nothing asks whether the path is a regular file, a directory or
  missing. Otherwise it is hidden, in particular for every selection of two or more
  paths.
\<close>

theorem GetState_Open:
  "(GetState P Open arr = (S_OK, ECS_ENABLED)) =
     (\<exists>p. CollectPaths arr = [p] \<and> map towlower (c_str (extension P p)) \<in> set exts) \<and>
   (GetState P Open arr = (S_OK, ECS_ENABLED) \<or> GetState P Open arr = (S_OK, ECS_HIDDEN)) \<and>
   (2 \<le> length (CollectPaths arr) \<longrightarrow> GetState P Open arr = (S_OK, ECS_HIDDEN))"
  by (cases "CollectPaths arr"; cases "tl (CollectPaths arr)")
     (auto simp: GetState_def Let_def IsArchiveExt_iff)

theorem GetState_Open_witness:
  "2 \<le> length (CollectPaths (selection [win ''C:/dir/X.7z'', win ''C:/dir/Y.7z''])) \<and>
   GetState sample_platform Open (selection [win ''C:/dir/X.7z'', win ''C:/dir/Y.7z'']) =
     (S_OK, ECS_HIDDEN) \<and>
   GetState sample_platform Open (selection [win ''C:/dir/X.7z'']) = (S_OK, ECS_ENABLED) \<and>
   GetState sample_platform Open (selection [win ''C:/dir/file.txt'']) = (S_OK, ECS_HIDDEN)"
proof -
  have one: "CollectPaths (selection [win ''C:/dir/X.7z'']) = [win ''C:/dir/X.7z'']"
    and two: "CollectPaths (selection [win ''C:/dir/X.7z'', win ''C:/dir/Y.7z'']) =
      [win ''C:/dir/X.7z'', win ''C:/dir/Y.7z'']"
    and three: "CollectPaths (selection [win ''C:/dir/file.txt'']) = [win ''C:/dir/file.txt'']"
    and x: "map towlower (c_str (extension sample_platform (win ''C:/dir/X.7z''))) = ''.7z''"
    and t: "map towlower (c_str (extension sample_platform (win ''C:/dir/file.txt''))) = ''.txt''"
    by code_simp+
  show ?thesis
    using GetState_Open [of sample_platform "selection [win ''C:/dir/X.7z'', win ''C:/dir/Y.7z'']"]
      GetState_Open [of sample_platform "selection [win ''C:/dir/X.7z'']"]
      GetState_Open [of sample_platform "selection [win ''C:/dir/file.txt'']"]
    by (auto simp add: one two three x t exts_def)
qed

text \<open>
  So an enabled \<^verbatim>\<open>Open\<close> does not imply that the single entry is an archive file. On
  the sample platform \<^verbatim>\<open>C:\dir\backup.zip\<close> is a directory and
  \<^verbatim>\<open>C:\dir\ghost.rar\<close> does not exist; neither is a regular file
  (\<^verbatim>\<open>FileExists\<close> is false), yet \<^verbatim>\<open>Open\<close> is enabled for the selection that holds
  only the one or only the other.
\<close>

theorem GetState_Open_not_a_file_counterexample:
  "CollectPaths (selection [win ''C:/dir/backup.zip'']) = [win ''C:/dir/backup.zip''] \<and>
   GetState sample_platform Open (selection [win ''C:/dir/backup.zip'']) = (S_OK, ECS_ENABLED) \<and>
   IsDirectoryPath sample_platform (win ''C:/dir/backup.zip'') \<and>
   \<not> FileExists sample_platform (win ''C:/dir/backup.zip'') \<and>
   CollectPaths (selection [win ''C:/dir/ghost.rar'']) = [win ''C:/dir/ghost.rar''] \<and>
   GetState sample_platform Open (selection [win ''C:/dir/ghost.rar'']) = (S_OK, ECS_ENABLED) \<and>
   GetFileAttributesW sample_platform (c_str (win ''C:/dir/ghost.rar'')) = INVALID_FILE_ATTRIBUTES \<and>
   \<not> FileExists sample_platform (win ''C:/dir/ghost.rar'')"
  by code_simp

section \<open>Add and email\<close>

text \<open>
  Claim C9. On every non-empty selection \<^verbatim>\<open>Invoke\<close> of \<^verbatim>\<open>Email7z\<close>,
  \<^verbatim>\<open>EmailZip\<close> and \<^verbatim>\<open>EmailArchive\<close> makes exactly the run of \<^verbatim>\<open>AddTo7z\<close>,
  \<^verbatim>\<open>AddToZip\<close> and \<^verbatim>\<open>AddToArchive\<close>: the same tool, the same archive name and
  the same arguments, with no flag of its own.
\<close>

theorem Email_dispatch_eq_Add:
  \<open>CollectPaths arr = paths \<Longrightarrow> paths \<noteq> [] \<Longrightarrow>
   Invoke P Email7z arr = Invoke P AddTo7z arr \<and>
   Invoke P EmailZip arr = Invoke P AddToZip arr \<and>
   Invoke P EmailArchive arr = Invoke P AddToArchive arr \<and>
   Invoke P AddTo7z arr =
     (S_OK, [ShellRun (Find7zTool P ''7zG.exe'')
               (''a "'' @ DefaultArchiveName P paths ''.7z'' @ ''" '' @ quoteJoin paths) []]) \<and>
   Invoke P AddToZip arr =
     (S_OK, [ShellRun (Find7zTool P ''7zG.exe'')
               (''a -tzip "'' @ DefaultArchiveName P paths ''.zip'' @ ''" '' @ quoteJoin paths) []]) \<and>
   Invoke P AddToArchive arr =
     (S_OK, [ShellRun (Find7zTool P ''7zG.exe'') (''a '' @ quoteJoin paths) []])\<close>
  by (simp add: Invoke_def Let_def)

theorem Email_dispatch_eq_Add_witness:
  \<open>CollectPaths (selection [win ''C:/dir/a.txt'', win ''C:/dir/b.txt'']) =
     [win ''C:/dir/a.txt'', win ''C:/dir/b.txt''] \<and>
   [win ''C:/dir/a.txt'', win ''C:/dir/b.txt''] \<noteq> [] \<and>
   Invoke sample_platform Email7z (selection [win ''C:/dir/a.txt'', win ''C:/dir/b.txt'']) =
     (S_OK, [ShellRun (win ''C:/Program Files/7-Zip/7zG.exe'')
        (''a "dir.7z" "'' @ win ''C:/dir/a.txt'' @ ''" "'' @ win ''C:/dir/b.txt'' @ ''" '') []]) \<and>
   Invoke sample_platform EmailZip (selection [win ''C:/dir/a.txt'', win ''C:/dir/b.txt'']) =
     (S_OK, [ShellRun (win ''C:/Program Files/7-Zip/7zG.exe'')
        (''a -tzip "dir.zip" "'' @ win ''C:/dir/a.txt'' @ ''" "'' @ win ''C:/dir/b.txt'' @ ''" '') []]) \<and>
   Invoke sample_platform EmailArchive (selection [win ''C:/dir/a.txt'', win ''C:/dir/b.txt'']) =
     (S_OK, [ShellRun (win ''C:/Program Files/7-Zip/7zG.exe'')
        (''a "'' @ win ''C:/dir/a.txt'' @ ''" "'' @ win ''C:/dir/b.txt'' @ ''" '') []])\<close>
proof -
  have two: "CollectPaths (selection [win ''C:/dir/a.txt'', win ''C:/dir/b.txt'']) =
      [win ''C:/dir/a.txt'', win ''C:/dir/b.txt'']"
    and tool: "Find7zTool sample_platform ''7zG.exe'' = win ''C:/Program Files/7-Zip/7zG.exe''"
    and n7: "DefaultArchiveName sample_platform [win ''C:/dir/a.txt'', win ''C:/dir/b.txt''] ''.7z'' = ''dir.7z''"
    and nz: "DefaultArchiveName sample_platform [win ''C:/dir/a.txt'', win ''C:/dir/b.txt''] ''.zip'' = ''dir.zip''"
    by code_simp+
  have q: \<open>quoteJoin [win ''C:/dir/a.txt'', win ''C:/dir/b.txt''] =
      ''"'' @ win ''C:/dir/a.txt'' @ ''" "'' @ win ''C:/dir/b.txt'' @ ''" ''\<close>
    by (simp add: quoteJoin_def)
  have ne: "[win ''C:/dir/a.txt'', win ''C:/dir/b.txt''] \<noteq> []"
    by simp
  show ?thesis
    using Email_dispatch_eq_Add [OF two ne, of sample_platform]
    by (simp add: two tool n7 nz q)
qed

section \<open>The root command\<close>

text \<open>
  Claim C10. \<^verbatim>\<open>ExplorerCommandRoot::GetState\<close> answers enabled for every selection,
  the null one included, where every \<^verbatim>\<open>ExplorerCommandBase\<close> answers hidden.
\<close>

theorem Root_GetState_enabled:
  "ExplorerCommandRoot_GetState arr fOkToBeSlow = (S_OK, ECS_ENABLED) \<and>
   ExplorerCommandRoot_GetState None fOkToBeSlow \<noteq> GetState P m_id None"
  by (simp add: ExplorerCommandRoot_GetState_def GetState_def CollectPaths_def)

section \<open>Facts about the store\<close>

lemma filter_update_count:
  "a < length xs \<Longrightarrow>
   length (filter P (xs[a := x])) + (if P (xs ! a) then 1 else 0) =
   length (filter P xs) + (if P x then 1 else 0)"
proof (induction xs arbitrary: a)
  case Nil
  then show ?case by simp
next
  case (Cons y ys)
  show ?case
  proof (cases a)
    case 0
    then show ?thesis by simp
  next
    case (Suc b)
    with Cons.prems have "b < length ys" by simp
    from Cons.IH [OF this] Suc show ?thesis by simp
  qed
qed

lemma drift_new:
  "drift (snd (new ob s)) = (if is_command (Some ob) then drift s - 1 else drift s)"
  by (simp add: drift_def new_def live_commands_def)

lemma drift_store:
  "deref s a = Some ob \<Longrightarrow> is_command (Some ob') = is_command (Some ob) \<Longrightarrow>
   drift (store a ob' s) = drift s"
  using filter_update_count [of a "heap s" is_command "Some ob'"]
  by (auto simp: drift_def store_def live_commands_def deref_def split: if_splits)

lemma drift_delete:
  assumes "deref s a = Some ob"
  shows "drift (delete a s) = (if is_command (Some ob) then drift s + 1 else drift s)"
proof -
  from assms have a: "a < length (heap s)" and h: "heap s ! a = Some ob"
    by (auto simp: deref_def split: if_splits)
  from filter_update_count [OF a, of is_command None] h
  have "live_commands (delete a s) + (if is_command (Some ob) then 1 else 0) = live_commands s"
    by (simp add: live_commands_def delete_def)
  then have "live_commands s = live_commands (delete a s) + (if is_command (Some ob) then 1 else 0)"
    by simp
  then have "(of_nat (live_commands s) :: 32 word) =
      of_nat (live_commands (delete a s)) + (if is_command (Some ob) then 1 else 0)"
    by (cases "is_command (Some ob)") simp_all
  moreover have "g_ObjCount (delete a s) = g_ObjCount s"
    by (simp add: delete_def)
  ultimately show ?thesis
    by (simp add: drift_def)
qed


lemma deref_g_ObjCount_update [simp]: "deref (s\<lparr>g_ObjCount := c\<rparr>) a = deref s a"
  by (simp add: deref_def)

lemma drift_g_ObjCount_update [simp]: "drift (s\<lparr>g_ObjCount := c\<rparr>) = drift s + (c - g_ObjCount s)"
  by (simp add: drift_def live_commands_def)

lemma drift_g_LockCount_update [simp]: "drift (s\<lparr>g_LockCount := c\<rparr>) = drift s"
  by (simp add: drift_def live_commands_def)

lemma is_command_set_m_ref [simp]: "is_command (Some (set_m_ref c ob)) = is_command (Some ob)"
  by (cases ob) simp_all

lemma drift_AddRef: "AddRef a s = Some (c, s') \<Longrightarrow> drift s' = drift s"
  by (auto simp: AddRef_def Let_def drift_store split: option.splits)

lemma drift_AddRef_each: "AddRef_each is s = Some s' \<Longrightarrow> drift s' = drift s"
  by (induction "is" arbitrary: s) (auto split: option.splits dest: drift_AddRef)

lemma drift_Release_command: "Release_command a s = Some (c, s') \<Longrightarrow> drift s' = drift s"
  by (auto simp: Release_command_def Let_def drift_store drift_delete
      split: option.splits object.splits if_splits)

lemma drift_Release_each: "Release_each is s = Some s' \<Longrightarrow> drift s' = drift s"
  by (induction "is" arbitrary: s) (auto split: option.splits dest: drift_Release_command)


lemma deref_store: "deref (store i x s) a = (if a = i \<and> a < length (heap s) then Some x else deref s a)"
  by (simp add: deref_def store_def)

lemma deref_delete: "deref (delete i s) a = (if a = i then None else deref s a)"
  by (simp add: deref_def delete_def)

lemma keep_Release_command:
  "Release_command i s = Some (c, s') \<Longrightarrow> deref s a = Some ob \<Longrightarrow> \<not> is_leaf ob \<Longrightarrow>
   deref s' a = Some ob"
  by (auto simp: Release_command_def Let_def deref_store deref_delete
      split: option.splits object.splits if_splits)

lemma keep_Release_each:
  "Release_each is s = Some s' \<Longrightarrow> deref s a = Some ob \<Longrightarrow> \<not> is_leaf ob \<Longrightarrow>
   deref s' a = Some ob"
proof (induction "is" arbitrary: s)
  case Nil
  then show ?case by simp
next
  case (Cons i "is")
  from Cons.prems(1) obtain c s1 where
    r: "Release_command i s = Some (c, s1)" and rest: "Release_each is s1 = Some s'"
    by (auto split: option.splits)
  from keep_Release_command [OF r Cons.prems(2,3)] have "deref s1 a = Some ob" .
  from Cons.IH [OF rest this Cons.prems(3)] show ?case .
qed

lemma drift_Release: "Release a s = Some (c, s') \<Longrightarrow> drift s' = drift s"
proof (cases "deref s a")
  case None
  assume "Release a s = Some (c, s')"
  with None show ?thesis by (simp add: Release_def)
next
  case (Some ob)
  assume rel: "Release a s = Some (c, s')"
  show ?thesis
  proof (cases ob)
    case (ExplorerCommandBase r i t)
    with Some rel show ?thesis by (simp add: Release_def drift_Release_command)
  next
    case (CRCMenuParent r i t)
    with Some rel show ?thesis by (simp add: Release_def drift_Release_command)
  next
    case (ExplorerCommandRoot r subs idx)
    show ?thesis
    proof (cases "r - 1 = 0")
      case True
      with Some ExplorerCommandRoot rel obtain s1 where
        e: "Release_each subs s = Some s1" and
        s': "s' = delete a (s1\<lparr>g_ObjCount := g_ObjCount s1 - 1\<rparr>)"
        by (auto simp: Release_def Let_def split: option.splits)
      from keep_Release_each [OF e Some] ExplorerCommandRoot
      have "deref s1 a = Some (ExplorerCommandRoot r subs idx)" by simp
      then have "deref (s1\<lparr>g_ObjCount := g_ObjCount s1 - 1\<rparr>) a = Some (ExplorerCommandRoot r subs idx)"
        by simp
      from drift_delete [OF this] s' drift_Release_each [OF e] show ?thesis by simp
    next
      case False
      with Some ExplorerCommandRoot rel show ?thesis
        by (auto simp: Release_def Let_def drift_store)
    qed
  next
    case (CommandEnum r items idx)
    show ?thesis
    proof (cases "r - 1 = 0")
      case True
      with Some CommandEnum rel obtain s1 where
        e: "Release_each items s = Some s1" and s': "s' = delete a s1"
        by (auto simp: Release_def Let_def split: option.splits)
      from keep_Release_each [OF e Some] CommandEnum
      have "deref s1 a = Some (CommandEnum r items idx)" by simp
      from drift_delete [OF this] s' drift_Release_each [OF e] show ?thesis by simp
    next
      case False
      with Some CommandEnum rel show ?thesis
        by (auto simp: Release_def Let_def drift_store)
    qed
  next
    case (ClassFactory r)
    with Some rel show ?thesis
      by (auto simp: Release_def Let_def drift_store drift_delete split: if_splits)
  qed
qed

lemma drift_QueryInterface: "QueryInterface a riid ppv s = Some (hr, s') \<Longrightarrow> drift s' = drift s"
  by (auto simp: QueryInterface_def split: option.splits if_splits dest: drift_AddRef)

lemma drift_new_ExplorerCommandBase: "drift (snd (new_ExplorerCommandBase i t s)) = drift s"
  by (simp add: new_ExplorerCommandBase_def drift_new)

lemma drift_new_CRCMenuParent: "drift (snd (new_CRCMenuParent s)) = drift s"
  by (simp add: new_CRCMenuParent_def drift_new)

lemma drift_push_back_new: "drift (snd (push_back_new tbl v s)) = drift s"
proof (induction tbl arbitrary: v s)
  case Nil
  then show ?case by simp
next
  case (Cons x tbl)
  obtain i t where x: "x = (i, t)" by (cases x)
  obtain a s1 where n: "new_ExplorerCommandBase i t s = (a, s1)" by (cases "new_ExplorerCommandBase i t s")
  from drift_new_ExplorerCommandBase [of i t s] n have "drift s1 = drift s" by simp
  with Cons.IH [of "v @ [a]" s1] x n show ?case by simp
qed

lemma deref_new_fresh: "new ob s = (a, s') \<Longrightarrow> deref s' a = Some ob"
  by (auto simp: new_def deref_def)

lemma deref_new_old: "new ob s = (a, s') \<Longrightarrow> deref s b = Some x \<Longrightarrow> deref s' b = Some x"
  by (auto simp: new_def deref_def nth_append split: if_splits)

lemma keep_new_ExplorerCommandBase:
  "new_ExplorerCommandBase i t s = (a, s') \<Longrightarrow> deref s b = Some x \<Longrightarrow> deref s' b = Some x"
  by (auto simp: new_ExplorerCommandBase_def new_def deref_def nth_append split: if_splits)

lemma keep_new_CRCMenuParent:
  "new_CRCMenuParent s = (a, s') \<Longrightarrow> deref s b = Some x \<Longrightarrow> deref s' b = Some x"
  by (auto simp: new_CRCMenuParent_def new_def deref_def nth_append split: if_splits)

lemma keep_push_back_new:
  "push_back_new tbl v s = (v', s') \<Longrightarrow> deref s b = Some x \<Longrightarrow> deref s' b = Some x"
proof (induction tbl arbitrary: v s)
  case Nil
  then show ?case by simp
next
  case (Cons y tbl)
  obtain i t where y: "y = (i, t)" by (cases y)
  obtain a s1 where n: "new_ExplorerCommandBase i t s = (a, s1)" by (cases "new_ExplorerCommandBase i t s")
  from keep_new_ExplorerCommandBase [OF n Cons.prems(2)] have "deref s1 b = Some x" .
  moreover from Cons.prems(1) y n have "push_back_new tbl (v @ [a]) s1 = (v', s')" by simp
  ultimately show ?case by (rule Cons.IH [rotated])
qed

lemma drift_new_ExplorerCommandRoot: "drift (snd (new_ExplorerCommandRoot s)) = drift s"
proof -
  obtain r s1 where a: "new (ExplorerCommandRoot 1 [] 0) s = (r, s1)"
    by (cases "new (ExplorerCommandRoot 1 [] 0) s")
  define s2 where "s2 = s1\<lparr>g_ObjCount := g_ObjCount s1 + 1\<rparr>"
  obtain v s3 where b: "push_back_new root_commands [] s2 = (v, s3)"
    by (cases "push_back_new root_commands [] s2")
  obtain p s4 where c: "new_CRCMenuParent s3 = (p, s4)"
    by (cases "new_CRCMenuParent s3")
  have res: "new_ExplorerCommandRoot s = (r, store r (ExplorerCommandRoot 1 (v @ [p]) 0) s4)"
    using a b c by (simp add: new_ExplorerCommandRoot_def s2_def)
  from drift_new [of "ExplorerCommandRoot 1 [] 0" s] a have "drift s1 = drift s - 1" by simp
  then have d2: "drift s2 = drift s" by (simp add: s2_def)
  from drift_push_back_new [of root_commands "[]" s2] b d2 have d3: "drift s3 = drift s" by simp
  from drift_new_CRCMenuParent [of s3] c d3 have d4: "drift s4 = drift s" by simp
  from deref_new_fresh [OF a] have "deref s2 r = Some (ExplorerCommandRoot 1 [] 0)"
    by (simp add: s2_def)
  from keep_push_back_new [OF b this] have "deref s3 r = Some (ExplorerCommandRoot 1 [] 0)" .
  from keep_new_CRCMenuParent [OF c this] have "deref s4 r = Some (ExplorerCommandRoot 1 [] 0)" .
  from drift_store [OF this, of "ExplorerCommandRoot 1 (v @ [p]) 0"] d4 res show ?thesis by simp
qed

lemma drift_new_CommandEnum: "new_CommandEnum v s = Some (e, s') \<Longrightarrow> drift s' = drift s"
proof -
  assume "new_CommandEnum v s = Some (e, s')"
  then obtain s1 where a: "AddRef_each v s = Some s1" and n: "new (CommandEnum 1 v 0) s1 = (e, s')"
    by (auto simp: new_CommandEnum_def split: option.splits)
  from drift_new [of "CommandEnum 1 v 0" s1] n drift_AddRef_each [OF a] show ?thesis by simp
qed

lemma deref_new_CommandEnum:
  "new_CommandEnum v s = Some (e, s') \<Longrightarrow> deref s' e = Some (CommandEnum 1 v 0)"
  by (auto simp: new_CommandEnum_def split: option.splits dest: deref_new_fresh)

lemma drift_CRCMenuParent_EnumSubCommands:
  "CRCMenuParent_EnumSubCommands s = Some (res, s') \<Longrightarrow> drift s' = drift s"
proof -
  assume h: "CRCMenuParent_EnumSubCommands s = Some (res, s')"
  obtain v s1 where a: "push_back_new crc_commands [] s = (v, s1)"
    by (cases "push_back_new crc_commands [] s")
  from h a obtain e s2 c where b: "new_CommandEnum v s1 = Some (e, s2)" and r: "AddRef e s2 = Some (c, s')"
    by (auto simp: CRCMenuParent_EnumSubCommands_def split: option.splits)
  from drift_push_back_new [of crc_commands "[]" s] a have "drift s1 = drift s" by simp
  with drift_new_CommandEnum [OF b] drift_AddRef [OF r] show ?thesis by simp
qed

lemma drift_enum_then_AddRef:
  "new_CommandEnum v s = Some (e, s1) \<Longrightarrow> AddRef e s1 = Some (c, s2) \<Longrightarrow> drift s2 = drift s"
  using drift_new_CommandEnum [of v s e s1] drift_AddRef [of e s1 c s2] by simp

lemma drift_EnumSubCommands: "EnumSubCommands a s = Some (res, s') \<Longrightarrow> drift s' = drift s"
proof (cases "deref s a")
  case None
  assume "EnumSubCommands a s = Some (res, s')"
  with None show ?thesis by (simp add: EnumSubCommands_def)
next
  case (Some ob)
  assume h: "EnumSubCommands a s = Some (res, s')"
  show ?thesis
  proof (cases ob)
    case (ExplorerCommandBase r i t)
    with Some h show ?thesis by (simp add: EnumSubCommands_def)
  next
    case (CRCMenuParent r i t)
    with Some h obtain res1 where "CRCMenuParent_EnumSubCommands s = Some (res1, s')"
      by (auto simp: EnumSubCommands_def split: option.splits)
    then show ?thesis by (rule drift_CRCMenuParent_EnumSubCommands)
  next
    case (ExplorerCommandRoot r subs idx)
    with Some h obtain e s1 c where
      "new_CommandEnum subs s = Some (e, s1)" and "AddRef e s1 = Some (c, s')"
      by (auto simp: EnumSubCommands_def split: option.splits)
    then show ?thesis by (rule drift_enum_then_AddRef)
  next
    case (CommandEnum r items idx)
    with Some h show ?thesis by (simp add: EnumSubCommands_def)
  next
    case (ClassFactory r)
    with Some h show ?thesis by (simp add: EnumSubCommands_def)
  qed
qed

lemma drift_Next_loop:
  "Next_loop n e rgelt s = Some (rgelt', s') \<Longrightarrow> drift s' = drift s"
proof (induction n arbitrary: rgelt s)
  case 0
  then show ?case by simp
next
  case (Suc n)
  from Suc.prems obtain r items idx where
    d: "deref s e = Some (CommandEnum r items idx)"
    by (auto split: option.splits object.splits)
  show ?case
  proof (cases "idx < length items")
    case True
    with Suc.prems d obtain c s1 where
      a: "AddRef (items ! idx) (store e (CommandEnum r items (idx + 1)) s) = Some (c, s1)" and
      l: "Next_loop n e (rgelt @ [items ! idx]) s1 = Some (rgelt', s')"
      by (auto split: option.splits)
    from drift_store [OF d, of "CommandEnum r items (idx + 1)"]
    have "drift (store e (CommandEnum r items (idx + 1)) s) = drift s" by simp
    with drift_AddRef [OF a] Suc.IH [OF l] show ?thesis by simp
  next
    case False
    with Suc.prems d show ?thesis by simp
  qed
qed

lemma drift_Next: "Next e celt s = Some (res, s') \<Longrightarrow> drift s' = drift s"
  by (auto simp: Next_def split: option.splits object.splits dest: drift_Next_loop)

lemma drift_Skip: "Skip e celt s = Some (res, s') \<Longrightarrow> drift s' = drift s"
  by (auto simp: Skip_def drift_store split: option.splits object.splits)

lemma drift_Reset: "Reset e s = Some (res, s') \<Longrightarrow> drift s' = drift s"
  by (auto simp: Reset_def drift_store split: option.splits object.splits)

lemma drift_Clone: "Clone e pp s = Some (res, s') \<Longrightarrow> drift s' = drift s"
proof (cases "deref s e")
  case None
  assume "Clone e pp s = Some (res, s')"
  with None show ?thesis by (simp add: Clone_def)
next
  case (Some ob)
  assume h: "Clone e pp s = Some (res, s')"
  show ?thesis
  proof (cases ob)
    case (CommandEnum r items idx)
    show ?thesis
    proof (cases pp)
      case True
      with Some CommandEnum h obtain e' s1 where
        n: "new_CommandEnum items s = Some (e', s1)" and
        s': "s' = store e' (CommandEnum 1 items idx) s1"
        by (auto simp: Clone_def split: option.splits)
      from drift_store [OF deref_new_CommandEnum [OF n], of "CommandEnum 1 items idx"]
        drift_new_CommandEnum [OF n] s'
      show ?thesis by simp
    next
      case False
      with Some CommandEnum h show ?thesis by (simp add: Clone_def)
    qed
  qed (use Some h in \<open>auto simp: Clone_def\<close>)
qed

lemma drift_CreateInstance: "CreateInstance f outer riid ppv s = Some (hr, s') \<Longrightarrow> drift s' = drift s"
proof -
  assume h: "CreateInstance f outer riid ppv s = Some (hr, s')"
  obtain obj s1 where n: "new_ExplorerCommandRoot s = (obj, s1)"
    by (cases "new_ExplorerCommandRoot s")
  from drift_new_ExplorerCommandRoot [of s] n have d1: "drift s1 = drift s" by simp
  show ?thesis
  proof (cases outer)
    case True
    with h show ?thesis
      by (auto simp: CreateInstance_def split: option.splits object.splits)
  next
    case False
    with h n obtain s2 c where
      q: "QueryInterface obj riid ppv s1 = Some (hr, s2)" and r: "Release obj s2 = Some (c, s')"
      by (auto simp: CreateInstance_def split: option.splits object.splits)
    from drift_QueryInterface [OF q] drift_Release [OF r] d1 show ?thesis by simp
  qed
qed

lemma drift_LockServer: "LockServer f fLock s = Some (hr, s') \<Longrightarrow> drift s' = drift s"
  by (auto simp: LockServer_def split: option.splits object.splits)

lemma drift_DllGetClassObject: "DllGetClassObject c riid ppv s = Some (hr, s') \<Longrightarrow> drift s' = drift s"
proof (cases c)
  case False
  assume "DllGetClassObject c riid ppv s = Some (hr, s')"
  with False show ?thesis by (simp add: DllGetClassObject_def)
next
  case True
  assume h: "DllGetClassObject c riid ppv s = Some (hr, s')"
  obtain cf s1 where n: "new (ClassFactory 1) s = (cf, s1)"
    by (cases "new (ClassFactory 1) s")
  from drift_new [of "ClassFactory 1" s] n have d1: "drift s1 = drift s" by simp
  from h True n obtain s2 k where
    q: "QueryInterface cf riid ppv s1 = Some (hr, s2)" and r: "Release cf s2 = Some (k, s')"
    by (auto simp: DllGetClassObject_def split: option.splits)
  from drift_QueryInterface [OF q] drift_Release [OF r] d1 show ?thesis by simp
qed

lemma drift_exec: "exec c s = Some s' \<Longrightarrow> drift s' = drift s"
  by (cases c)
     (auto dest: drift_DllGetClassObject drift_CreateInstance drift_LockServer
        drift_QueryInterface drift_AddRef drift_Release drift_EnumSubCommands drift_Next
        drift_Skip drift_Reset drift_Clone)

lemma drift_run: "run cs s = Some s' \<Longrightarrow> drift s' = drift s"
  by (induction cs arbitrary: s) (auto split: option.splits dest: drift_exec)

lemma drift_loaded: "drift loaded = 0"
  by (simp add: drift_def loaded_def live_commands_def)

lemma sint_of_nat_small:
  assumes "n < 2 ^ 31"
  shows "sint (of_nat n :: 32 word) = int n"
proof -
  from assms have "int n < 2 ^ 31" by simp
  moreover have "- (2 ^ 31) \<le> int n" by simp
  ultimately have "signed_take_bit 31 (int n) = int n"
    by (simp only: signed_take_bit_int_eq_self)
  then show ?thesis by (simp add: signed_of_nat)
qed

lemma of_nat_eq_0_small:
  assumes "n < 2 ^ 31"
  shows "((of_nat n :: 32 word) = 0) = (n = 0)"
proof
  assume "(of_nat n :: 32 word) = 0"
  then have "sint (of_nat n :: 32 word) = 0" by simp
  with sint_of_nat_small [OF assms] show "n = 0" by simp
next
  assume "n = 0"
  then show "(of_nat n :: 32 word) = 0" by simp
qed

lemma push_back_new_eq:
  "push_back_new tbl v s =
     (v @ [length (heap s)..<length (heap s) + length tbl],
      s\<lparr>heap := heap s @ map (\<lambda>(i, t). Some (ExplorerCommandBase 1 i t)) tbl,
        g_ObjCount := g_ObjCount s + of_nat (length tbl)\<rparr>)"
proof (induction tbl arbitrary: v s)
  case Nil
  then show ?case by simp
next
  case (Cons x tbl)
  obtain i t where x: "x = (i, t)" by (cases x)
  have u: "[length (heap s)..<Suc (length (heap s) + length tbl)] =
      length (heap s) # [Suc (length (heap s))..<Suc (length (heap s) + length tbl)]"
    by (simp add: upt_conv_Cons del: upt_Suc)
  show ?case
    unfolding x
    by (simp add: Cons.IH new_ExplorerCommandBase_def new_def u del: upt_Suc)
qed

lemma crc_addresses: "[n..<n + 4] = [n, n + 1, n + 2, n + 3]"
  by (simp add: upt_rec numeral_eq_Suc)

lemma CRCMenuParent_EnumSubCommands_eq:
  "CRCMenuParent_EnumSubCommands s =
     Some ((S_OK, length (heap s) + 4),
       s\<lparr>heap := heap s @
           [Some (ExplorerCommandBase 2 CRC32 ''CRC-32''),
            Some (ExplorerCommandBase 2 CRC64 ''CRC-64''),
            Some (ExplorerCommandBase 2 SHA1 ''SHA-1''),
            Some (ExplorerCommandBase 2 SHA256 ''SHA-256''),
            Some (CommandEnum 2
              [length (heap s), length (heap s) + 1, length (heap s) + 2, length (heap s) + 3] 0)],
         g_ObjCount := g_ObjCount s + 4\<rparr>)"
  by (simp add: CRCMenuParent_EnumSubCommands_def push_back_new_eq crc_commands_def
      crc_addresses new_CommandEnum_def AddRef_def deref_def store_def new_def Let_def
      nth_append list_update_append)


lemma Next_all_eq:
  "heap s = h @
           [Some (ExplorerCommandBase 2 CRC32 ''CRC-32''),
            Some (ExplorerCommandBase 2 CRC64 ''CRC-64''),
            Some (ExplorerCommandBase 2 SHA1 ''SHA-1''),
            Some (ExplorerCommandBase 2 SHA256 ''SHA-256''),
            Some (CommandEnum 2 [length h, length h + 1, length h + 2, length h + 3] 0)] \<Longrightarrow>
   Next (length h + 4) 5 s =
     Some ((S_FALSE, [length h, length h + 1, length h + 2, length h + 3]),
       s\<lparr>heap := h @
           [Some (ExplorerCommandBase 3 CRC32 ''CRC-32''),
            Some (ExplorerCommandBase 3 CRC64 ''CRC-64''),
            Some (ExplorerCommandBase 3 SHA1 ''SHA-1''),
            Some (ExplorerCommandBase 3 SHA256 ''SHA-256''),
            Some (CommandEnum 2 [length h, length h + 1, length h + 2, length h + 3] 4)]\<rparr>)"
  by (simp add: Next_def eval_nat_numeral AddRef_def deref_def store_def Let_def
      nth_append list_update_append)


lemma new_ExplorerCommandRoot_eq:
  "new_ExplorerCommandRoot s =
     (length (heap s),
      s\<lparr>heap := heap s @
          [Some (ExplorerCommandRoot 1
             ([Suc (length (heap s))..<Suc (length (heap s)) + length root_commands] @
              [Suc (length (heap s)) + length root_commands]) 0)] @
          map (\<lambda>(i, t). Some (ExplorerCommandBase 1 i t)) root_commands @
          [Some (CRCMenuParent 1 CRCMenu ''CRC SHA'')],
        g_ObjCount := g_ObjCount s + 1 + of_nat (length root_commands) + 1\<rparr>)"
  by (simp add: new_ExplorerCommandRoot_def new_def push_back_new_eq new_CRCMenuParent_def
      store_def list_update_append)

section \<open>The CRC submenu\<close>

lemma expand_once:
  "\<exists>e s1 rgelt s2.
     CRCMenuParent_EnumSubCommands s = Some ((S_OK, e), s1) \<and>
     Next e 5 s1 = Some ((S_FALSE, rgelt), s2) \<and>
     map (command_id s2) rgelt = [Some CRC32, Some CRC64, Some SHA1, Some SHA256]"
proof -
  define s1 where "s1 = s\<lparr>heap := heap s @
           [Some (ExplorerCommandBase 2 CRC32 ''CRC-32''),
            Some (ExplorerCommandBase 2 CRC64 ''CRC-64''),
            Some (ExplorerCommandBase 2 SHA1 ''SHA-1''),
            Some (ExplorerCommandBase 2 SHA256 ''SHA-256''),
            Some (CommandEnum 2
              [length (heap s), length (heap s) + 1, length (heap s) + 2, length (heap s) + 3] 0)],
         g_ObjCount := g_ObjCount s + 4\<rparr>"
  define s2 where "s2 = s1\<lparr>heap := heap s @
           [Some (ExplorerCommandBase 3 CRC32 ''CRC-32''),
            Some (ExplorerCommandBase 3 CRC64 ''CRC-64''),
            Some (ExplorerCommandBase 3 SHA1 ''SHA-1''),
            Some (ExplorerCommandBase 3 SHA256 ''SHA-256''),
            Some (CommandEnum 2
              [length (heap s), length (heap s) + 1, length (heap s) + 2, length (heap s) + 3] 4)]\<rparr>"
  have a: "CRCMenuParent_EnumSubCommands s = Some ((S_OK, length (heap s) + 4), s1)"
    by (simp add: CRCMenuParent_EnumSubCommands_eq s1_def)
  have "heap s1 = heap s @
           [Some (ExplorerCommandBase 2 CRC32 ''CRC-32''),
            Some (ExplorerCommandBase 2 CRC64 ''CRC-64''),
            Some (ExplorerCommandBase 2 SHA1 ''SHA-1''),
            Some (ExplorerCommandBase 2 SHA256 ''SHA-256''),
            Some (CommandEnum 2
              [length (heap s), length (heap s) + 1, length (heap s) + 2, length (heap s) + 3] 0)]"
    by (simp add: s1_def)
  from Next_all_eq [OF this]
  have b: "Next (length (heap s) + 4) 5 s1 =
      Some ((S_FALSE,
             [length (heap s), length (heap s) + 1, length (heap s) + 2, length (heap s) + 3]), s2)"
    by (simp add: s2_def)
  have c: "map (command_id s2)
      [length (heap s), length (heap s) + 1, length (heap s) + 2, length (heap s) + 3] =
      [Some CRC32, Some CRC64, Some SHA1, Some SHA256]"
    by (simp add: command_id_def deref_def s2_def nth_append)
  show ?thesis by (intro exI conjI) (rule a, rule b, rule c)
qed

text \<open>
  Claim C7. Expanding the CRC submenu gives the same children every time: each of \<open>n\<close>
  expansions in a row, from any state of the module, enumerates exactly the four
  commands \<^verbatim>\<open>CRC32\<close>, \<^verbatim>\<open>CRC64\<close>, \<^verbatim>\<open>SHA1\<close>, \<^verbatim>\<open>SHA256\<close>, in that order.
  \<^verbatim>\<open>EnumSubCommands\<close> takes no selection, so the selection cannot matter.
\<close>

theorem CRCMenu_expansion_fixed:
  "\<exists>s'. expand_CRCMenu n s =
     Some (replicate n [Some CRC32, Some CRC64, Some SHA1, Some SHA256], s')"
proof (induction n arbitrary: s)
  case 0
  show ?case by simp
next
  case (Suc n)
  from expand_once [of s] obtain e s1 rgelt s2 where
    a: "CRCMenuParent_EnumSubCommands s = Some ((S_OK, e), s1)" and
    b: "Next e 5 s1 = Some ((S_FALSE, rgelt), s2)" and
    c: "map (command_id s2) rgelt = [Some CRC32, Some CRC64, Some SHA1, Some SHA256]"
    by (elim exE conjE)
  from Suc.IH [of s2] obtain s3 where
    "expand_CRCMenu n s2 =
       Some (replicate n [Some CRC32, Some CRC64, Some SHA1, Some SHA256], s3)"
    by (elim exE)
  with a b c show ?case by simp
qed

section \<open>The object count\<close>

text \<open>
  Claim C8. After every sequence of calls from the host, \<^verbatim>\<open>g_ObjCount\<close> is the
  number of live command objects (the objects constructed and not yet destroyed), as a
  32-bit value: read as a \<^verbatim>\<open>LONG\<close> it is that number as long as fewer than \<open>2^31\<close>
  are alive. \<^verbatim>\<open>DllCanUnloadNow\<close> answers \<^verbatim>\<open>S_OK\<close> exactly when
  \<^verbatim>\<open>g_ObjCount\<close> and \<^verbatim>\<open>g_LockCount\<close> are both 0 at the moment of the call, which
  under the same bound is when no command object is alive and no lock is held.
\<close>

theorem g_ObjCount_counts_live_commands:
  "run calls loaded = Some s \<Longrightarrow>
   g_ObjCount s = of_nat (live_commands s) \<and>
   (live_commands s < 2 ^ 31 \<longrightarrow>
      sint (g_ObjCount s) = int (live_commands s) \<and>
      (DllCanUnloadNow s = S_OK) = (live_commands s = 0 \<and> g_LockCount s = 0)) \<and>
   (DllCanUnloadNow s = S_OK) = (g_ObjCount s = 0 \<and> g_LockCount s = 0)"
proof -
  assume "run calls loaded = Some s"
  from drift_run [OF this] have "drift s = 0" by (simp add: drift_loaded)
  then have c: "g_ObjCount s = of_nat (live_commands s)" by (simp add: drift_def)
  have u: "(DllCanUnloadNow s = S_OK) = (g_ObjCount s = 0 \<and> g_LockCount s = 0)"
    by (simp add: DllCanUnloadNow_def)
  have b: "sint (g_ObjCount s) = int (live_commands s) \<and>
      (DllCanUnloadNow s = S_OK) = (live_commands s = 0 \<and> g_LockCount s = 0)"
    if "live_commands s < 2 ^ 31"
    using sint_of_nat_small [OF that] of_nat_eq_0_small [OF that]
    by (simp only: c u)
  from c u b show ?thesis by blast
qed

theorem g_ObjCount_counts_live_commands_witness:
  "(\<exists>s. run [Call_DllGetClassObject True IID_IClassFactory True,
              Call_CreateInstance 0 False IID_IExplorerCommand True,
              Call_EnumSubCommands 13,
              Call_Release 1] loaded = Some s \<and>
        live_commands s = 4 \<and> g_ObjCount s = 4 \<and> sint (g_ObjCount s) = 4 \<and>
        DllCanUnloadNow s = S_FALSE) \<and>
   (\<exists>s. run [Call_DllGetClassObject True IID_IClassFactory True,
              Call_CreateInstance 0 False IID_IExplorerCommand True,
              Call_Release 1,
              Call_Release 0] loaded = Some s \<and>
        live_commands s = 0 \<and> g_ObjCount s = 0 \<and> DllCanUnloadNow s = S_OK)"
proof -
  have "map_option (\<lambda>s. (live_commands s, g_LockCount s))
      (run [Call_DllGetClassObject True IID_IClassFactory True,
            Call_CreateInstance 0 False IID_IExplorerCommand True,
            Call_EnumSubCommands 13,
            Call_Release 1] loaded) = Some (4, 0)"
    by (simp add: DllGetClassObject_def CreateInstance_def new_ExplorerCommandRoot_eq
        root_commands_def QueryInterface_def AddRef_def Release_def Release_command_def
        EnumSubCommands_def CRCMenuParent_EnumSubCommands_eq deref_def store_def delete_def
        new_def loaded_def live_commands_def Let_def upt_rec)
  then obtain s where s: "run [Call_DllGetClassObject True IID_IClassFactory True,
            Call_CreateInstance 0 False IID_IExplorerCommand True,
            Call_EnumSubCommands 13,
            Call_Release 1] loaded = Some s" "live_commands s = 4" "g_LockCount s = 0"
    by auto
  have "map_option (\<lambda>s. (live_commands s, g_LockCount s))
      (run [Call_DllGetClassObject True IID_IClassFactory True,
            Call_CreateInstance 0 False IID_IExplorerCommand True,
            Call_Release 1,
            Call_Release 0] loaded) = Some (0, 0)"
    by (simp add: DllGetClassObject_def CreateInstance_def new_ExplorerCommandRoot_eq
        root_commands_def QueryInterface_def AddRef_def Release_def Release_command_def
        deref_def store_def delete_def new_def loaded_def live_commands_def Let_def upt_rec)
  then obtain t where t: "run [Call_DllGetClassObject True IID_IClassFactory True,
            Call_CreateInstance 0 False IID_IExplorerCommand True,
            Call_Release 1,
            Call_Release 0] loaded = Some t" "live_commands t = 0" "g_LockCount t = 0"
    by auto
  from g_ObjCount_counts_live_commands [OF s(1)] s(2,3)
  have "live_commands s = 4 \<and> g_ObjCount s = 4 \<and> sint (g_ObjCount s) = 4 \<and>
        DllCanUnloadNow s = S_FALSE"
    by (simp add: DllCanUnloadNow_def)
  moreover from g_ObjCount_counts_live_commands [OF t(1)] t(2,3)
  have "live_commands t = 0 \<and> g_ObjCount t = 0 \<and> DllCanUnloadNow t = S_OK"
    by simp
  ultimately show ?thesis using s(1) t(1) by blast
qed

end
